theory Spec2Isabelle
  imports Complex_Main
begin

section \<open>Python and numpy values\<close>

text \<open>
  The notebook \<^verbatim>\<open>python/all_functions.ipynb\<close> works on numpy arrays of
  \<^verbatim>\<open>float64\<close>. Scalars are modelled by an arbitrary commutative ring \<open>'a\<close>, so
  every statement below is one of exact arithmetic. A two-dimensional array is the list
  of its rows; a four-dimensional array (the block grid and each carry array) is a list
  of lists of two-dimensional arrays. An array without rows carries no column count, so
  the model is that of the notebook for shapes whose dimensions are positive (the filter
  order \<open>r\<close> and the block side \<open>b\<close> are positive in the notebook's runs).

  Exceptions are values: a pure expression has a result of type \<open>error + 'v\<close>, and a
  statement that mutates arrays in place maps the workspace to the workspace after it,
  together with the exception that stopped it, if any.
\<close>

datatype error = IndexError | ValueError | ZeroDivisionError | LinAlgError

type_synonym 'a mat = "'a list list"
type_synonym 'a grid = "'a mat list list"

definition ebind :: "error + 'v \<Rightarrow> ('v \<Rightarrow> error + 'w) \<Rightarrow> error + 'w" where
  "ebind m f = (case m of Inl e \<Rightarrow> Inl e | Inr x \<Rightarrow> f x)"

text \<open>\<^verbatim>\<open>xs[i]\<close>: a negative index counts from the end, anything out of range raises.\<close>

definition py_get :: "'v list \<Rightarrow> int \<Rightarrow> error + 'v" where
  "py_get xs i =
     (if 0 \<le> i \<and> i < int (length xs) then Inr (xs ! nat i)
      else if i < 0 \<and> - int (length xs) \<le> i then Inr (xs ! nat (int (length xs) + i))
      else Inl IndexError)"

text \<open>\<^verbatim>\<open>xs[i] = v\<close> on a list of slots.\<close>

definition py_set :: "'v list \<Rightarrow> int \<Rightarrow> 'v \<Rightarrow> error + 'v list" where
  "py_set xs i v =
     (if 0 \<le> i \<and> i < int (length xs) then Inr (xs[nat i := v])
      else if i < 0 \<and> - int (length xs) \<le> i then Inr (xs[nat (int (length xs) + i) := v])
      else Inl IndexError)"

definition nrows :: "'a mat \<Rightarrow> nat" where
  "nrows A = length A"

definition ncols :: "'a mat \<Rightarrow> nat" where
  "ncols A = (case A of [] \<Rightarrow> 0 | row # _ \<Rightarrow> length row)"

definition is_mat :: "nat \<Rightarrow> nat \<Rightarrow> 'a mat \<Rightarrow> bool" where
  "is_mat h w A = (length A = h \<and> list_all (\<lambda>row. length row = w) A)"

definition is_grid :: "nat \<Rightarrow> nat \<Rightarrow> nat \<Rightarrow> nat \<Rightarrow> 'a grid \<Rightarrow> bool" where
  "is_grid m n h w G =
     (length G = m \<and> list_all (\<lambda>row. length row = n \<and> list_all (is_mat h w) row) G)"

definition np_zeros :: "nat \<Rightarrow> nat \<Rightarrow> 'a::comm_ring_1 mat" where
  "np_zeros h w = replicate h (replicate w 0)"

definition np_identity :: "nat \<Rightarrow> 'a::comm_ring_1 mat" where
  "np_identity n = map (\<lambda>i. map (\<lambda>j. if i = j then 1 else 0) [0..<n]) [0..<n]"

definition np_transpose :: "'a mat \<Rightarrow> 'a mat" where
  "np_transpose A = map (\<lambda>j. map (\<lambda>row. row ! j) A) [0..<ncols A]"

text \<open>
  Broadcasting of a two-dimensional value to the shape \<open>(h, w)\<close>, as numpy does it in
  an assignment to a slot and in \<^verbatim>\<open>+\<close>: a dimension of the value must be the
  target's or 1, and a dimension of 1 is repeated.
\<close>

definition broadcast_to :: "nat \<Rightarrow> nat \<Rightarrow> 'a mat \<Rightarrow> error + 'a mat" where
  "broadcast_to h w V =
     (if (nrows V = h \<or> nrows V = 1) \<and> (ncols V = w \<or> ncols V = 1)
      then Inr (map (\<lambda>i. map (\<lambda>j. V ! (if nrows V = 1 then 0 else i)
                                    ! (if ncols V = 1 then 0 else j)) [0..<w]) [0..<h])
      else Inl ValueError)"

definition bdim :: "nat \<Rightarrow> nat \<Rightarrow> error + nat" where
  "bdim a b = (if a = b then Inr a else if a = 1 then Inr b else if b = 1 then Inr a
               else Inl ValueError)"

definition np_zip :: "('a \<Rightarrow> 'a \<Rightarrow> 'a) \<Rightarrow> 'a mat \<Rightarrow> 'a mat \<Rightarrow> error + 'a mat" where
  "np_zip f A B =
     ebind (bdim (nrows A) (nrows B)) (\<lambda>h.
     ebind (bdim (ncols A) (ncols B)) (\<lambda>w.
     ebind (broadcast_to h w A) (\<lambda>A'.
     ebind (broadcast_to h w B) (\<lambda>B'.
     Inr (map2 (map2 f) A' B')))))"

definition np_add :: "'a::comm_ring_1 mat \<Rightarrow> 'a mat \<Rightarrow> error + 'a mat" where
  "np_add = np_zip (+)"

definition np_sub :: "'a::comm_ring_1 mat \<Rightarrow> 'a mat \<Rightarrow> error + 'a mat" where
  "np_sub = np_zip (-)"

definition mat_mul :: "'a::comm_ring_1 mat \<Rightarrow> 'a mat \<Rightarrow> 'a mat" where
  "mat_mul A B =
     map (\<lambda>row. map (\<lambda>j. \<Sum>k\<leftarrow>[0..<length B]. row ! k * B ! k ! j) [0..<ncols B]) A"

text \<open>\<^verbatim>\<open>np.dot\<close> of two-dimensional arrays: the inner dimensions must agree.\<close>

definition np_dot :: "'a::comm_ring_1 mat \<Rightarrow> 'a mat \<Rightarrow> error + 'a mat" where
  "np_dot A B = (if ncols A = nrows B then Inr (mat_mul A B) else Inl ValueError)"

text \<open>\<^verbatim>\<open>np.tile(X, (p, q))\<close>: \<open>p\<close> copies down, \<open>q\<close> copies across.\<close>

definition np_tile :: "'a mat \<Rightarrow> nat \<Rightarrow> nat \<Rightarrow> 'a mat" where
  "np_tile X p q = concat (replicate p (map (\<lambda>row. concat (replicate q row)) X))"

text \<open>\<^verbatim>\<open>G[m][n]\<close> and \<^verbatim>\<open>G[m][n] = V\<close> on a four-dimensional array.\<close>

definition get2 :: "'a grid \<Rightarrow> int \<Rightarrow> int \<Rightarrow> error + 'a mat" where
  "get2 G m n = ebind (py_get G m) (\<lambda>row. py_get row n)"

definition set2 :: "'a grid \<Rightarrow> int \<Rightarrow> int \<Rightarrow> 'a mat \<Rightarrow> error + 'a grid" where
  "set2 G m n V =
     ebind (py_get G m) (\<lambda>row.
     ebind (py_get row n) (\<lambda>slot.
     ebind (broadcast_to (nrows slot) (ncols slot) V) (\<lambda>V'.
     ebind (py_set row n V') (\<lambda>row'. py_set G m row'))))"

section \<open>Row sweeps\<close>

fun fwd_taps :: "'a::comm_ring_1 list \<Rightarrow> 'a list \<Rightarrow> nat \<Rightarrow> nat list \<Rightarrow> 'a list
                 \<Rightarrow> error + 'a list" where
  "fwd_taps prol weig j [] bloc = Inr bloc"
| "fwd_taps prol weig j (k # ks) bloc =
     (if int j - int k < 0
      then ebind (py_get prol (int j - int k))
             (\<lambda>v. fwd_taps prol weig j ks (bloc[j := bloc ! j - v * weig ! k]))
      else fwd_taps prol weig j ks (bloc[j := bloc ! j - bloc ! (j - k) * weig ! k]))"

fun fwd_rows :: "'a::comm_ring_1 list \<Rightarrow> 'a list \<Rightarrow> nat list \<Rightarrow> 'a list \<Rightarrow> error + 'a list" where
  "fwd_rows prol weig [] bloc = Inr bloc"
| "fwd_rows prol weig (j # js) bloc =
     ebind (py_get weig 0) (\<lambda>b0.
     ebind (fwd_taps prol weig j [1..<length weig] (bloc[j := bloc ! j * b0]))
       (fwd_rows prol weig js))"

definition fwd :: "'a::comm_ring_1 list \<Rightarrow> 'a list \<Rightarrow> 'a list \<Rightarrow> error + 'a list" where
  "fwd prol bloc weig = fwd_rows prol weig [0..<length bloc] bloc"

fun FT_rows :: "'a::comm_ring_1 mat \<Rightarrow> 'a list \<Rightarrow> nat list \<Rightarrow> 'a mat \<Rightarrow> error + 'a mat" where
  "FT_rows Prol weig [] FTB = Inr FTB"
| "FT_rows Prol weig (row # rows) FTB =
     ebind (py_get Prol (int row)) (\<lambda>prol.
     ebind (fwd prol (FTB ! row) weig) (\<lambda>bloc.
     FT_rows Prol weig rows (FTB[row := bloc])))"

definition FT :: "'a::comm_ring_1 mat \<Rightarrow> 'a mat \<Rightarrow> 'a list \<Rightarrow> error + 'a mat" where
  "FT Prol Bloc weig = FT_rows Prol weig [0..<length Bloc] Bloc"

definition F :: "'a::comm_ring_1 mat \<Rightarrow> 'a mat \<Rightarrow> 'a list \<Rightarrow> error + 'a mat" where
  "F Prol Bloc weig =
     ebind (FT (np_transpose Prol) (np_transpose Bloc) weig) (\<lambda>X. Inr (np_transpose X))"

fun rev_taps :: "'a::comm_ring_1 list \<Rightarrow> 'a list \<Rightarrow> nat \<Rightarrow> nat list \<Rightarrow> 'a list
                 \<Rightarrow> error + 'a list" where
  "rev_taps epil weig j [] bloc = Inr bloc"
| "rev_taps epil weig j (k # ks) bloc =
     (if j + k \<ge> length bloc
      then ebind (py_get epil (int j + int k - int (length bloc)))
             (\<lambda>v. rev_taps epil weig j ks (bloc[j := bloc ! j - v * weig ! k]))
      else rev_taps epil weig j ks (bloc[j := bloc ! j - bloc ! (j + k) * weig ! k]))"

fun rev_rows :: "'a::comm_ring_1 list \<Rightarrow> 'a list \<Rightarrow> nat list \<Rightarrow> 'a list \<Rightarrow> error + 'a list" where
  "rev_rows epil weig [] bloc = Inr bloc"
| "rev_rows epil weig (j0 # js) bloc =
     (let j = length bloc - 1 - j0 in
      ebind (py_get weig 0) (\<lambda>b0.
      ebind (rev_taps epil weig j [1..<length weig] (bloc[j := bloc ! j * b0]))
        (rev_rows epil weig js)))"

definition rev_sweep :: "'a::comm_ring_1 list \<Rightarrow> 'a list \<Rightarrow> 'a list \<Rightarrow> error + 'a list" where
  "rev_sweep bloc epil weig = rev_rows epil weig [0..<length bloc] bloc"

fun RT_rows :: "'a::comm_ring_1 mat \<Rightarrow> 'a list \<Rightarrow> nat list \<Rightarrow> 'a mat \<Rightarrow> error + 'a mat" where
  "RT_rows Epil weig [] RTB = Inr RTB"
| "RT_rows Epil weig (row # rows) RTB =
     ebind (py_get Epil (int row)) (\<lambda>epil.
     ebind (rev_sweep (RTB ! row) epil weig) (\<lambda>bloc.
     RT_rows Epil weig rows (RTB[row := bloc])))"

definition RT :: "'a::comm_ring_1 mat \<Rightarrow> 'a mat \<Rightarrow> 'a list \<Rightarrow> error + 'a mat" where
  "RT Bloc Epil weig = RT_rows Epil weig [0..<length Bloc] Bloc"

definition R :: "'a::comm_ring_1 mat \<Rightarrow> 'a mat \<Rightarrow> 'a list \<Rightarrow> error + 'a mat" where
  "R Bloc Epil weig =
     ebind (RT (np_transpose Bloc) (np_transpose Epil) weig) (\<lambda>X. Inr (np_transpose X))"

text \<open>Head and tail operators. \<^verbatim>\<open>X[-r:]\<close> is the whole of \<open>X\<close> when \<open>r = 0\<close>.\<close>

definition H :: "'a mat \<Rightarrow> nat \<Rightarrow> 'a mat" where
  "H X r = take r X"

definition T :: "'a mat \<Rightarrow> nat \<Rightarrow> 'a mat" where
  "T X r = (if r = 0 then X else drop (length X - r) X)"

definition HT :: "'a mat \<Rightarrow> nat \<Rightarrow> 'a mat" where
  "HT X r = map (take r) X"

definition TT :: "'a mat \<Rightarrow> nat \<Rightarrow> 'a mat" where
  "TT X r = map (\<lambda>row. if r = 0 then row else drop (length row - r) row) X"

definition flip :: "'a mat \<Rightarrow> 'a mat" where
  "flip Bloc = map (\<lambda>i. map (\<lambda>j. Bloc ! (nrows Bloc - 1 - i) ! (ncols Bloc - 1 - j))
                     [0..<ncols Bloc]) [0..<nrows Bloc]"


section \<open>Block decomposition\<close>

fun efold :: "('i \<Rightarrow> 's \<Rightarrow> error + 's) \<Rightarrow> 'i list \<Rightarrow> 's \<Rightarrow> error + 's" where
  "efold f [] s = Inr s"
| "efold f (i # is) s = ebind (f i s) (efold f is)"

text \<open>
  \<^verbatim>\<open>math.ceil(X.shape[0] / float(b))\<close>: the quotient is a float, and dividing by
  \<^verbatim>\<open>float(0)\<close> raises. The ceiling is the exact one for the sizes an img has.
\<close>

definition get_mn :: "'a mat \<Rightarrow> nat \<Rightarrow> error + nat \<times> nat" where
  "get_mn X b =
     (if b = 0 then Inl ZeroDivisionError
      else Inr ((nrows X + b - 1) div b, (ncols X + b - 1) div b))"

text \<open>\<^verbatim>\<open>X[r0:r1, c0:c1]\<close> for bounds that are not negative; a slice is clipped.\<close>

definition slice2 :: "'a mat \<Rightarrow> nat \<Rightarrow> nat \<Rightarrow> nat \<Rightarrow> nat \<Rightarrow> 'a mat" where
  "slice2 X r0 r1 c0 c1 = map (\<lambda>row. take (c1 - c0) (drop c0 row)) (take (r1 - r0) (drop r0 X))"

text \<open>
  \<^verbatim>\<open>np.empty\<close> allocates without initialising: the cells hold whatever \<open>junk\<close>
  the allocator left there.
\<close>

definition np_empty :: "(nat \<Rightarrow> nat \<Rightarrow> 'a) \<Rightarrow> nat \<Rightarrow> nat \<Rightarrow> 'a mat" where
  "np_empty junk h w = map (\<lambda>i. map (\<lambda>j. junk i j) [0..<w]) [0..<h]"

definition break_blocks ::
  "(nat \<Rightarrow> nat \<Rightarrow> 'a) \<Rightarrow> 'a mat \<Rightarrow> nat \<Rightarrow> nat option \<Rightarrow> nat option \<Rightarrow> error + 'a grid" where
  "break_blocks junk X b m_size n_size =
     ebind (case (m_size, n_size) of
              (Some m, Some n) \<Rightarrow> Inr (m, n)
            | _ \<Rightarrow> get_mn X b) (\<lambda>(m_size, n_size).
     efold (\<lambda>m. efold (\<lambda>n blocks.
              set2 blocks (int m) (int n) (slice2 X (m * b) ((m + 1) * b) (n * b) ((n + 1) * b)))
            [0..<n_size])
       [0..<m_size] (replicate m_size (replicate n_size (np_empty junk b b))))"

text \<open>
  \<^verbatim>\<open>img[r0:r1, c0:c1] = V\<close> on an img of shape \<open>(h, w)\<close>: the target is
  the clipped region, and \<open>V\<close> is broadcast to its shape.
\<close>

definition set_slice2 ::
  "nat \<Rightarrow> nat \<Rightarrow> 'a mat \<Rightarrow> nat \<Rightarrow> nat \<Rightarrow> nat \<Rightarrow> nat \<Rightarrow> 'a mat \<Rightarrow> error + 'a mat" where
  "set_slice2 h w img r0 r1 c0 c1 V =
     ebind (broadcast_to (min r1 h - min r0 h) (min c1 w - min c0 w) V) (\<lambda>V'.
     Inr (map (\<lambda>i. map (\<lambda>j. if r0 \<le> i \<and> i < r1 \<and> c0 \<le> j \<and> j < c1
                              then V' ! (i - r0) ! (j - c0) else img ! i ! j) [0..<w]) [0..<h]))"

definition join_blocks ::
  "(nat \<Rightarrow> nat \<Rightarrow> 'a) \<Rightarrow> 'a grid \<Rightarrow> nat \<Rightarrow> nat \<Rightarrow> nat \<Rightarrow> nat \<times> nat \<Rightarrow> error + 'a mat" where
  "join_blocks junk blocks b m_size n_size Xshape =
     (case Xshape of (h, w) \<Rightarrow>
      efold (\<lambda>m. efold (\<lambda>n img.
               ebind (get2 blocks (int m) (int n))
                 (set_slice2 h w img (m * b) ((m + 1) * b) (n * b) ((n + 1) * b)))
             [0..<n_size])
        [0..<m_size] (np_empty junk h w))"

section \<open>Elementary matrices\<close>

definition AbarF_loop :: "'a::comm_ring_1 list \<Rightarrow> 'a mat \<Rightarrow> nat \<Rightarrow> error + 'a mat" where
  "AbarF_loop wgt ArF r =
     efold (\<lambda>i AbarF.
       ebind (py_get wgt 0) (\<lambda>w0.
       efold (\<lambda>j AbarF.
         ebind (py_get ArF (int j - int i - 1)) (\<lambda>row.
         ebind (py_get row (int r - 1)) (\<lambda>v.
         ebind (py_get wgt 0) (\<lambda>w0.
         Inr (AbarF[j := (AbarF ! j)[i := v * w0]])))))
       [i + 1..<r] (AbarF[i := (AbarF ! i)[i := w0]])))
     [0..<r] (np_zeros r r)"

text \<open>The pack of 25 matrices, in the order of the returned tuple.\<close>

definition build_alg5_matrices ::
  "nat \<Rightarrow> nat \<Rightarrow> 'a::comm_ring_1 list \<Rightarrow> nat \<Rightarrow> nat \<Rightarrow> error + 'a mat list" where
  "build_alg5_matrices b r wgt width height =
     (let Zrb = np_zeros r b; Zbr = np_zeros b r;
          Ir = np_identity r; Ib = np_identity b;
          Zwr = np_zeros width r; Zrh = np_zeros r height;
          K = rev Ir in
      ebind (F Ir Zbr wgt) (\<lambda>AFP.
      ebind (F Zrb Ib wgt) (\<lambda>AFB.
      ebind (R Zbr Ir wgt) (\<lambda>ARE.
      ebind (R Ib Zrb wgt) (\<lambda>ARB.
      let AbF = T AFP r; AbR = H ARE r; HARB = H ARB r in
      ebind (np_dot HARB AFP) (\<lambda>HARB_AFP.
      ebind (np_dot HARB AFB) (\<lambda>HARB_AFB.
      let AbFT = np_transpose AbF; TAFBT = np_transpose (T AFB r) in
      ebind (np_dot ARB AFP) (\<lambda>ARB_AFP.
      let AbRT = np_transpose AbR;
          HARB_AFPT = np_transpose HARB_AFP;
          HARB_AFBT = np_transpose HARB_AFB;
          ArF = H AFP r; ArR = flip ArF in
      ebind (AbarF_loop wgt ArF r) (\<lambda>AbarF.
      let AbarR = flip AbarF in
      ebind (F Ir Zwr wgt) (\<lambda>FIZ.
      let AwF = T FIZ r in
      ebind (R Zwr Ir wgt) (\<lambda>RZI.
      let AwR = H RZI r in
      ebind (FT Ir Zrh wgt) (\<lambda>FTIZ.
      let AhF = TT FTIZ r in
      ebind (RT Zrh Ir wgt) (\<lambda>RTZI.
      let AhR = HT RTZI r in
      Inr [Zrb, Zbr, Ir, Ib, AFP, AFB, AbF, AbR,
           HARB_AFP, AbFT, AbRT, HARB_AFPT, HARB_AFBT,
           ARB_AFP, TAFBT, ARE, K, ArF, ArR, AbarF, AbarR,
           AwF, AwR, AhF, AhR])))))))))))))"

section \<open>Carries and the workspace\<close>

text \<open>
  The carry arrays and the block grid are mutated in place. \<open>P\<close> and \<open>E\<close> have
  \<open>m_size + 1\<close> rows of slots and \<open>Pt\<close>, \<open>Et\<close> have \<open>n_size + 1\<close> columns: the
  index \<open>-1\<close> of Python reaches the last one.
\<close>

record 'a workspace =
  P :: "'a grid"
  E :: "'a grid"
  Pt :: "'a grid"
  Et :: "'a grid"
  blocks :: "'a grid"

definition build_alg5_carries ::
  "nat \<Rightarrow> nat \<Rightarrow> nat \<Rightarrow> nat \<Rightarrow> 'a::comm_ring_1 grid \<times> 'a grid \<times> 'a grid \<times> 'a grid" where
  "build_alg5_carries m_size n_size b r =
     (replicate (m_size + 1) (replicate n_size (np_zeros r b)),
      replicate (m_size + 1) (replicate n_size (np_zeros r b)),
      replicate m_size (replicate (n_size + 1) (np_zeros b r)),
      replicate m_size (replicate (n_size + 1) (np_zeros b r)))"

text \<open>\<^verbatim>\<open>P, E, Pt, Et = carries\<close>, next to the block grid the stages work on.\<close>

definition unpack_carries ::
  "'a grid \<times> 'a grid \<times> 'a grid \<times> 'a grid \<Rightarrow> 'a grid \<Rightarrow> 'a workspace" where
  "unpack_carries carries B =
     (case carries of (p, e, pt, et) \<Rightarrow> \<lparr>P = p, E = e, Pt = pt, Et = et, blocks = B\<rparr>)"

type_synonym 'a stmt = "'a workspace \<Rightarrow> error option \<times> 'a workspace"

definition raise :: "error \<Rightarrow> 'a stmt" where
  "raise e ws = (Some e, ws)"

definition seq :: "'a stmt \<Rightarrow> 'a stmt \<Rightarrow> 'a stmt" where
  "seq c1 c2 ws = (case c1 ws of (None, ws') \<Rightarrow> c2 ws' | (Some e, ws') \<Rightarrow> (Some e, ws'))"

definition eval :: "('a workspace \<Rightarrow> error + 'v) \<Rightarrow> ('v \<Rightarrow> 'a stmt) \<Rightarrow> 'a stmt" where
  "eval ex k ws = (case ex ws of Inl e \<Rightarrow> (Some e, ws) | Inr v \<Rightarrow> k v ws)"

fun for_each :: "'i list \<Rightarrow> ('i \<Rightarrow> 'a stmt) \<Rightarrow> 'a stmt" where
  "for_each [] body ws = (None, ws)"
| "for_each (i # is) body ws =
     (case body i ws of (None, ws') \<Rightarrow> for_each is body ws' | (Some e, ws') \<Rightarrow> (Some e, ws'))"

definition assign_P :: "int \<Rightarrow> int \<Rightarrow> 'a mat \<Rightarrow> 'a stmt" where
  "assign_P m n V = eval (\<lambda>ws. set2 (P ws) m n V) (\<lambda>G ws. (None, ws\<lparr>P := G\<rparr>))"

definition assign_E :: "int \<Rightarrow> int \<Rightarrow> 'a mat \<Rightarrow> 'a stmt" where
  "assign_E m n V = eval (\<lambda>ws. set2 (E ws) m n V) (\<lambda>G ws. (None, ws\<lparr>E := G\<rparr>))"

definition assign_Pt :: "int \<Rightarrow> int \<Rightarrow> 'a mat \<Rightarrow> 'a stmt" where
  "assign_Pt m n V = eval (\<lambda>ws. set2 (Pt ws) m n V) (\<lambda>G ws. (None, ws\<lparr>Pt := G\<rparr>))"

definition assign_Et :: "int \<Rightarrow> int \<Rightarrow> 'a mat \<Rightarrow> 'a stmt" where
  "assign_Et m n V = eval (\<lambda>ws. set2 (Et ws) m n V) (\<lambda>G ws. (None, ws\<lparr>Et := G\<rparr>))"

text \<open>Sums and products of array expressions, evaluated left to right.\<close>

definition eadd :: "error + 'a::comm_ring_1 mat \<Rightarrow> error + 'a mat \<Rightarrow> error + 'a mat" where
  "eadd x y = ebind x (\<lambda>a. ebind y (\<lambda>b. np_add a b))"

definition edot :: "error + 'a::comm_ring_1 mat \<Rightarrow> error + 'a mat \<Rightarrow> error + 'a mat" where
  "edot x y = ebind x (\<lambda>a. ebind y (\<lambda>b. np_dot a b))"

section \<open>Algorithm 5 with zero padding\<close>

definition stage1_block :: "nat \<Rightarrow> 'a::comm_ring_1 list \<Rightarrow> 'a mat \<Rightarrow> 'a mat \<Rightarrow> nat \<Rightarrow> nat \<Rightarrow> 'a stmt" where
  "stage1_block r wgt Zrb Zbr n m =
     eval (\<lambda>ws. get2 (blocks ws) (int m) (int n)) (\<lambda>B.
     eval (\<lambda>ws. F Zrb B wgt) (\<lambda>B.
     seq (assign_P (int m) (int n) (T B r))
     (eval (\<lambda>ws. R B Zrb wgt) (\<lambda>B.
     seq (assign_E (int m) (int n) (H B r))
     (eval (\<lambda>ws. FT Zbr B wgt) (\<lambda>B.
     seq (assign_Pt (int m) (int n) (TT B r))
     (eval (\<lambda>ws. RT B Zbr wgt) (\<lambda>B.
     assign_Et (int m) (int n) (HT B r)))))))))"

definition alg5_stage1 ::
  "nat \<Rightarrow> nat \<Rightarrow> nat \<Rightarrow> 'a::comm_ring_1 list \<Rightarrow> 'a mat list \<Rightarrow> 'a stmt" where
  "alg5_stage1 m_size n_size r wgt matrices =
     (case take 2 matrices of
        [Zrb, Zbr] \<Rightarrow>
          for_each [0..<n_size] (\<lambda>n.
            for_each [0..<m_size] (\<lambda>m. stage1_block r wgt Zrb Zbr n m))
      | _ \<Rightarrow> raise ValueError)"

definition stage2_step :: "'a::comm_ring_1 mat \<Rightarrow> nat \<Rightarrow> nat \<Rightarrow> 'a stmt" where
  "stage2_step AbF n m =
     eval (\<lambda>ws. eadd (get2 (P ws) (int m) (int n))
                      (edot (Inr AbF) (get2 (P ws) (int m - 1) (int n))))
       (assign_P (int m) (int n))"

definition stage3_step :: "'a::comm_ring_1 mat \<Rightarrow> 'a mat \<Rightarrow> nat \<Rightarrow> nat \<Rightarrow> 'a stmt" where
  "stage3_step AbR HARB_AFP n m =
     eval (\<lambda>ws. eadd (eadd (get2 (E ws) (int m) (int n))
                            (edot (Inr HARB_AFP) (get2 (P ws) (int m - 1) (int n))))
                      (edot (Inr AbR) (get2 (E ws) (int m + 1) (int n))))
       (assign_E (int m) (int n))"

definition alg5_stage23 :: "nat \<Rightarrow> nat \<Rightarrow> 'a::comm_ring_1 mat list \<Rightarrow> 'a stmt" where
  "alg5_stage23 m_size n_size matrices =
     (case take 3 (drop 6 matrices) of
        [AbF, AbR, HARB_AFP] \<Rightarrow>
          for_each [0..<n_size] (\<lambda>n.
            seq (for_each [0..<m_size] (stage2_step AbF n))
                (for_each (rev [0..<m_size]) (stage3_step AbR HARB_AFP n)))
      | _ \<Rightarrow> raise ValueError)"

definition stage4_step :: "'a::comm_ring_1 mat \<Rightarrow> 'a mat \<Rightarrow> 'a mat \<Rightarrow> 'a mat \<Rightarrow> nat \<Rightarrow> nat \<Rightarrow> 'a stmt" where
  "stage4_step AbFT ARB_AFP TAFBT ARE m n =
     eval (\<lambda>ws. eadd (eadd (eadd (get2 (Pt ws) (int m) (int n))
                   (edot (Inr ARB_AFP) (edot (get2 (P ws) (int m - 1) (int n)) (Inr TAFBT))))
                   (edot (Inr ARE) (edot (get2 (E ws) (int m + 1) (int n)) (Inr TAFBT))))
                   (edot (get2 (Pt ws) (int m) (int n - 1)) (Inr AbFT)))
       (assign_Pt (int m) (int n))"

definition stage5_step ::
  "'a::comm_ring_1 mat \<Rightarrow> 'a mat \<Rightarrow> 'a mat \<Rightarrow> 'a mat \<Rightarrow> 'a mat \<Rightarrow> nat \<Rightarrow> nat \<Rightarrow> 'a stmt" where
  "stage5_step AbRT HARB_AFPT HARB_AFBT ARB_AFP ARE m n =
     eval (\<lambda>ws. eadd (eadd (eadd (eadd (get2 (Et ws) (int m) (int n))
                   (edot (Inr ARB_AFP) (edot (get2 (P ws) (int m - 1) (int n)) (Inr HARB_AFBT))))
                   (edot (Inr ARE) (edot (get2 (E ws) (int m + 1) (int n)) (Inr HARB_AFBT))))
                   (edot (get2 (Pt ws) (int m) (int n - 1)) (Inr HARB_AFPT)))
                   (edot (get2 (Et ws) (int m) (int n + 1)) (Inr AbRT)))
       (assign_Et (int m) (int n))"

definition alg5_stage45 :: "nat \<Rightarrow> nat \<Rightarrow> 'a::comm_ring_1 mat list \<Rightarrow> 'a stmt" where
  "alg5_stage45 m_size n_size matrices =
     (case take 7 (drop 9 matrices) of
        [AbFT, AbRT, HARB_AFPT, HARB_AFBT, ARB_AFP, TAFBT, ARE] \<Rightarrow>
          for_each [0..<m_size] (\<lambda>m.
            seq (for_each [0..<n_size] (stage4_step AbFT ARB_AFP TAFBT ARE m))
                (for_each (rev [0..<n_size])
                   (stage5_step AbRT HARB_AFPT HARB_AFBT ARB_AFP ARE m)))
      | _ \<Rightarrow> raise ValueError)"

section \<open>Constant-padding extension: stage 1\<close>

definition skip :: "'a stmt" where
  "skip ws = (None, ws)"

definition cpe_stage1_block ::
  "nat \<Rightarrow> nat \<Rightarrow> nat \<Rightarrow> 'a::comm_ring_1 list \<Rightarrow> 'a mat \<Rightarrow> 'a mat \<Rightarrow> nat \<Rightarrow> nat \<Rightarrow> 'a stmt" where
  "cpe_stage1_block m_size n_size r wgt Zrb Zbr n m =
     eval (\<lambda>ws. get2 (blocks ws) (int m) (int n)) (\<lambda>B.
     seq (if m = 0 then assign_P (- 1) (int n) (np_tile (H B 1) r 1)
          else if int m = int m_size - 1 then assign_E (int m_size) (int n) (np_tile (T B 1) r 1)
          else skip)
     (eval (\<lambda>ws. F Zrb B wgt) (\<lambda>B.
     seq (assign_P (int m) (int n) (T B r))
     (eval (\<lambda>ws. R B Zrb wgt) (\<lambda>B.
     seq (assign_E (int m) (int n) (H B r))
     (seq (if n = 0 then assign_Pt (int m) (- 1) (np_tile (HT B 1) 1 r)
           else if int n = int n_size - 1
                then assign_Et (int m) (int n_size) (np_tile (TT B 1) 1 r)
           else skip)
     (eval (\<lambda>ws. FT Zbr B wgt) (\<lambda>B.
     seq (assign_Pt (int m) (int n) (TT B r))
     (eval (\<lambda>ws. RT B Zbr wgt) (\<lambda>B.
     assign_Et (int m) (int n) (HT B r)))))))))))"

definition alg5_cpe_stage1 ::
  "nat \<Rightarrow> nat \<Rightarrow> nat \<Rightarrow> 'a::comm_ring_1 list \<Rightarrow> 'a mat list \<Rightarrow> 'a stmt" where
  "alg5_cpe_stage1 m_size n_size r wgt matrices =
     (case take 2 matrices of
        [Zrb, Zbr] \<Rightarrow>
          for_each [0..<n_size] (\<lambda>n.
            for_each [0..<m_size] (\<lambda>m. cpe_stage1_block m_size n_size r wgt Zrb Zbr n m))
      | _ \<Rightarrow> raise ValueError)"

section \<open>Periodic extension: matrices and stages 2 and 3\<close>

text \<open>
  \<^verbatim>\<open>np.linalg.inv\<close> is numpy's, not the notebook's: the builder takes it as the
  parameter \<open>np_inv\<close>, which returns the inverse or raises.
\<close>

definition build_pe_matrices ::
  "('a::comm_ring_1 mat \<Rightarrow> error + 'a mat) \<Rightarrow> nat \<Rightarrow> 'a list \<Rightarrow> 'a mat list
   \<Rightarrow> error + 'a mat list" where
  "build_pe_matrices np_inv r wgt alg5m =
     ebind (py_get alg5m 2) (\<lambda>Ir.
     case take 4 (drop 21 alg5m) of
       [AwF, AwR, AhF, AhR] \<Rightarrow>
         ebind (ebind (np_sub Ir AwF) np_inv) (\<lambda>IAwF.
         ebind (ebind (np_sub Ir AwR) np_inv) (\<lambda>IAwR.
         ebind (ebind (np_sub Ir AhF) np_inv) (\<lambda>X.
         let IAhF = np_transpose X in
         ebind (ebind (np_sub Ir AhR) np_inv) (\<lambda>Y.
         let IAhR = np_transpose Y in
         Inr [IAhF, IAhR, IAwF, IAwR]))))
     | _ \<Rightarrow> Inl ValueError)"

definition pe_PM1Y :: "'a::comm_ring_1 mat \<Rightarrow> 'a mat \<Rightarrow> nat \<Rightarrow> nat \<Rightarrow> 'a workspace \<Rightarrow> error + 'a mat" where
  "pe_PM1Y Zrb AbF m_size n ws =
     efold (\<lambda>m PM1Y. eadd (get2 (P ws) (int m) (int n)) (edot (Inr AbF) (Inr PM1Y)))
       [0..<m_size] Zrb"

definition pe_E0Z ::
  "'a::comm_ring_1 mat \<Rightarrow> 'a mat \<Rightarrow> 'a mat \<Rightarrow> nat \<Rightarrow> nat \<Rightarrow> 'a workspace \<Rightarrow> error + 'a mat" where
  "pe_E0Z Zrb AbR HARB_AFP m_size n ws =
     efold (\<lambda>m E0Z. eadd (eadd (get2 (E ws) (int m) (int n))
                            (edot (Inr HARB_AFP) (get2 (P ws) (int m - 1) (int n))))
                         (edot (Inr AbR) (Inr E0Z)))
       (rev [0..<m_size]) Zrb"

definition alg5_pe_stage23 ::
  "nat \<Rightarrow> nat \<Rightarrow> 'a::comm_ring_1 mat list \<Rightarrow> 'a mat list \<Rightarrow> 'a stmt" where
  "alg5_pe_stage23 m_size n_size matrices pe_matrices =
     eval (\<lambda>ws. py_get matrices 0) (\<lambda>Zrb.
     case take 3 (drop 6 matrices) of
       [AbF, AbR, HARB_AFP] \<Rightarrow>
        (case take 2 pe_matrices of
           [IAhF, IAhR] \<Rightarrow>
             for_each [0..<n_size] (\<lambda>n.
               seq (eval (\<lambda>ws. edot (Inr IAhF) (pe_PM1Y Zrb AbF m_size n ws))
                      (assign_P (- 1) (int n)))
              (seq (for_each [0..<m_size] (stage2_step AbF n))
              (seq (eval (\<lambda>ws. edot (Inr IAhR) (pe_E0Z Zrb AbR HARB_AFP m_size n ws))
                      (assign_E (int m_size) (int n)))
                   (for_each (rev [0..<m_size]) (stage3_step AbR HARB_AFP n)))))
         | _ \<Rightarrow> raise ValueError)
     | _ \<Rightarrow> raise ValueError)"


section \<open>Definitions used to state the properties\<close>

text \<open>
  The value a tap of the forward sweep reads at distance \<open>k\<close> behind position
  \<open>j\<close>: from the prologue, counted from its end, when \<open>j - k\<close> is negative, and
  from the row otherwise.
\<close>

definition tap_src :: "'a list \<Rightarrow> 'a list \<Rightarrow> nat \<Rightarrow> nat \<Rightarrow> 'a" where
  "tap_src prol ys j k = (if j < k then prol ! (length prol + j - k) else ys ! (j - k))"

text \<open>
  Sums and powers of matrices of a known shape, for the closed form of a carry sweep.
\<close>

definition mat_add :: "'a::comm_ring_1 mat \<Rightarrow> 'a mat \<Rightarrow> 'a mat" where
  "mat_add A B = map2 (map2 (+)) A B"





text \<open>
  The first pass of the periodic extension in the words of the specification: an
  accumulator that starts from zero and takes \<open>X m + AbF * PM1Y\<close> for
  \<open>m = 0..M-1\<close>.
\<close>

definition pe_first_pass :: "nat \<Rightarrow> nat \<Rightarrow> 'a::comm_ring_1 mat \<Rightarrow> (nat \<Rightarrow> 'a mat) \<Rightarrow> nat \<Rightarrow> 'a mat" where
  "pe_first_pass r b AbF X M =
     foldl (\<lambda>PM1Y m. mat_add (X m) (mat_mul AbF PM1Y)) (np_zeros r b) [0..<M]"


text \<open>
  The inverse of a 1 by 1 real matrix, standing for \<^verbatim>\<open>np.linalg.inv\<close> in a worked
  example.
\<close>

definition inv_1x1 :: "real mat \<Rightarrow> error + real mat" where
  "inv_1x1 A = (case A of [[x]] \<Rightarrow> if x = 0 then Inl LinAlgError else Inr [[1 / x]]
                | _ \<Rightarrow> Inl LinAlgError)"

text \<open>
  The four carries of one block in the words of the specification (section 4.5): a
  function of the block, the weights, the order and the two zero matrices only.
\<close>

definition block_carries ::
  "nat \<Rightarrow> 'a::comm_ring_1 list \<Rightarrow> 'a mat \<Rightarrow> 'a mat \<Rightarrow> 'a mat
   \<Rightarrow> error + 'a mat \<times> 'a mat \<times> 'a mat \<times> 'a mat" where
  "block_carries r wgt Zrb Zbr B =
     ebind (F Zrb B wgt) (\<lambda>B1.
     ebind (R B1 Zrb wgt) (\<lambda>B2.
     ebind (FT Zbr B2 wgt) (\<lambda>B3.
     ebind (RT B3 Zbr wgt) (\<lambda>B4.
     Inr (T B1 r, H B2 r, TT B3 r, HT B4 r)))))"

text \<open>
  A grid in which the slots of the index set \<open>S\<close> hold \<open>f m n\<close> and the others are
  those of \<open>G\<close>.
\<close>

definition fill :: "'a grid \<Rightarrow> (nat \<Rightarrow> nat \<Rightarrow> 'a mat) \<Rightarrow> (nat \<times> nat) set \<Rightarrow> 'a grid" where
  "fill G f S =
     map (\<lambda>m. map (\<lambda>n. if (m, n) \<in> S then f m n else G ! m ! n) [0..<length (G ! m)])
       [0..<length G]"

section \<open>The error monad\<close>

lemma ebind_Inr [simp]: "ebind (Inr x) f = f x" by (simp add: ebind_def)
lemma ebind_Inl [simp]: "ebind (Inl e) f = Inl e" by (simp add: ebind_def)

section \<open>The forward row sweep\<close>

lemma fwd_taps_ok:
  "\<forall>k\<in>set ks. 0 < k \<and> k \<le> length prol \<Longrightarrow> j < length bloc \<Longrightarrow>
   fwd_taps prol weig j ks bloc =
     Inr (bloc[j := foldl (\<lambda>acc k. acc - weig ! k * tap_src prol bloc j k) (bloc ! j) ks])"
proof (induction ks arbitrary: bloc)
  case Nil
  then show ?case by simp
next
  case (Cons k ks)
  have k: "0 < k" "k \<le> length prol" using Cons.prems by auto
  let ?v = "tap_src prol bloc j k"
  let ?b = "bloc[j := bloc ! j - ?v * weig ! k]"
  have idx: "nat (int (length prol) + (int j - int k)) = length prol + j - k"
    using k by linarith
  have step: "fwd_taps prol weig j (k # ks) bloc = fwd_taps prol weig j ks ?b"
    using k by (auto simp: py_get_def tap_src_def idx)
  have src: "tap_src prol ?b j k' = tap_src prol bloc j k'" if "0 < k'" for k'
    using that by (simp add: tap_src_def)
  have "foldl (\<lambda>acc k. acc - weig ! k * tap_src prol ?b j k) a ks
      = foldl (\<lambda>acc k. acc - weig ! k * tap_src prol bloc j k) a ks" for a
    using Cons.prems(1)
    by (intro foldl_cong) (auto simp: src)
  then have "fwd_taps prol weig j ks ?b =
     Inr (bloc[j := foldl (\<lambda>acc k. acc - weig ! k * tap_src prol bloc j k)
                     (bloc ! j - weig ! k * ?v) ks])"
    using Cons.IH[of ?b] Cons.prems by (simp add: mult.commute)
  then show ?case
    unfolding step by simp
qed


lemma fwd_rows_ok:
  assumes "weig \<noteq> []" "length weig - 1 \<le> length prol" "n = length bloc" "i \<le> n"
  shows "\<exists>ys. fwd_rows prol weig [i..<n] bloc = Inr ys \<and> length ys = n \<and>
           (\<forall>j<i. ys ! j = bloc ! j) \<and>
           (\<forall>j. i \<le> j \<and> j < n \<longrightarrow>
              ys ! j = foldl (\<lambda>acc k. acc - weig ! k * tap_src prol ys j k)
                         (weig ! 0 * bloc ! j) [1..<length weig])"
  using assms(3,4)
proof (induction "n - i" arbitrary: i bloc)
  case 0
  then show ?case by auto
next
  case (Suc d)
  then have i: "i < n" by simp
  let ?ks = "[1..<length weig]"
  let ?b0 = "bloc[i := bloc ! i * weig ! 0]"
  let ?v = "foldl (\<lambda>acc k. acc - weig ! k * tap_src prol ?b0 i k) (?b0 ! i) ?ks"
  let ?b1 = "?b0[i := ?v]"
  have taps: "fwd_taps prol weig i ?ks ?b0 = Inr ?b1"
  proof -
    have "\<forall>k\<in>set ?ks. 0 < k \<and> k \<le> length prol" using assms(2) by auto
    from fwd_taps_ok[OF this, of i ?b0 weig] show ?thesis
      using i Suc.prems by simp
  qed
  have unf: "fwd_rows prol weig [i..<n] bloc = fwd_rows prol weig [Suc i..<n] ?b1"
    using i assms(1) taps by (simp add: upt_conv_Cons py_get_def)
  have "n = length ?b1" "Suc i \<le> n" "d = n - Suc i"
    using Suc.prems Suc.hyps(2) i by auto
  from Suc.hyps(1)[OF this(3,1,2)]
  obtain ys where ys: "fwd_rows prol weig [Suc i..<n] ?b1 = Inr ys" "length ys = n"
     "\<forall>j<Suc i. ys ! j = ?b1 ! j"
     "\<forall>j. Suc i \<le> j \<and> j < n \<longrightarrow>
              ys ! j = foldl (\<lambda>acc k. acc - weig ! k * tap_src prol ys j k)
                         (weig ! 0 * ?b1 ! j) ?ks"
    by blast
  have pre: "\<forall>j<i. ys ! j = bloc ! j" using ys(3) by simp
  have src: "tap_src prol ?b0 i k = tap_src prol ys i k" if "0 < k" for k
    using that ys(3) by (auto simp: tap_src_def)
  have "foldl (\<lambda>acc k. acc - weig ! k * tap_src prol ?b0 i k) a ?ks
      = foldl (\<lambda>acc k. acc - weig ! k * tap_src prol ys i k) a ?ks" for a
    by (intro foldl_cong) (auto simp: src)
  then have at_i: "ys ! i = foldl (\<lambda>acc k. acc - weig ! k * tap_src prol ys i k)
                         (weig ! 0 * bloc ! i) ?ks"
    using ys(3) i Suc.prems by (simp add: mult.commute)
  have later: "ys ! j = foldl (\<lambda>acc k. acc - weig ! k * tap_src prol ys j k)
                         (weig ! 0 * bloc ! j) ?ks" if "Suc i \<le> j" "j < n" for j
    using ys(4) that by simp
  have all: "\<forall>j. i \<le> j \<and> j < n \<longrightarrow>
              ys ! j = foldl (\<lambda>acc k. acc - weig ! k * tap_src prol ys j k)
                         (weig ! 0 * bloc ! j) ?ks"
  proof (intro allI impI)
    fix j assume "i \<le> j \<and> j < n"
    then consider "j = i" | "Suc i \<le> j" "j < n" by linarith
    then show "ys ! j = foldl (\<lambda>acc k. acc - weig ! k * tap_src prol ys j k)
                         (weig ! 0 * bloc ! j) ?ks"
      using at_i later by cases auto
  qed
  show ?case
    unfolding unf using ys(1,2) pre all by blast
qed

text \<open>
  C3: for a prologue of length at least \<open>r\<close>, any row, and weights
  \<open>(b0, a1, ..., ar)\<close>, \<open>fwd\<close> returns the row in which, for \<open>j\<close> from
  \<open>0\<close> upwards, entry \<open>j\<close> is \<open>b0\<close> times the input entry minus, for
  \<open>k = 1..r\<close> in turn, \<open>w[k]\<close> times \<open>prol[j - k]\<close> when \<open>j - k\<close> is
  negative and \<open>w[k]\<close> times the already updated entry \<open>j - k\<close> otherwise.
\<close>

theorem fwd_sweep:
  assumes "r \<le> length prol" "length w = Suc r"
  shows "\<exists>ys. fwd prol xs w = Inr ys \<and> length ys = length xs \<and>
           (\<forall>j<length xs.
              ys ! j = foldl (\<lambda>acc k. acc - w ! k *
                                 (if j < k then prol ! (length prol + j - k) else ys ! (j - k)))
                         (w ! 0 * xs ! j) [1..<Suc r])"
proof -
  have "w \<noteq> []" "length w - 1 \<le> length prol" using assms by auto
  from fwd_rows_ok[OF this, of "length xs" xs 0]
  show ?thesis unfolding fwd_def tap_src_def assms(2) by simp
qed

theorem fwd_sweep_witness:
  "(1::nat) \<le> length [5::int] \<and> length [2, 3::int] = Suc 1 \<and>
   fwd [5::int] [1, 2] [2, 3] = Inr [-13, 43]"
  using fwd_sweep[of 1 "[5::int]" "[2, 3]" "[1, 2]"]
  by (simp add: fwd_def py_get_def upt_conv_Cons)

section \<open>Indexing\<close>

lemma py_get_nat: "i < length xs \<Longrightarrow> py_get xs (int i) = Inr (xs ! i)"
  by (simp add: py_get_def)

lemma py_get_last: "xs \<noteq> [] \<Longrightarrow> py_get xs (- 1) = Inr (xs ! (length xs - 1))"
  by (cases xs) (simp_all add: py_get_def)

lemma py_get_pred: "0 < i \<Longrightarrow> i \<le> length xs \<Longrightarrow> py_get xs (int i - 1) = Inr (xs ! (i - 1))"
proof -
  assume a: "0 < i" "i \<le> length xs"
  then have eq: "int i - 1 = int (i - 1)" by linarith
  have "py_get xs (int (i - 1)) = Inr (xs ! (i - 1))"
    by (rule py_get_nat) (use a in linarith)
  then show ?thesis by (simp only: eq)
qed

lemma py_get_succ: "Suc i < length xs \<Longrightarrow> py_get xs (int i + 1) = Inr (xs ! Suc i)"
proof -
  assume a: "Suc i < length xs"
  have eq: "int i + 1 = int (Suc i)" by simp
  show ?thesis by (simp only: eq py_get_nat[OF a])
qed

lemma py_set_nat: "i < length xs \<Longrightarrow> py_set xs (int i) v = Inr (xs[i := v])"
  by (simp add: py_set_def)

lemma py_set_last: "xs \<noteq> [] \<Longrightarrow> py_set xs (- 1) v = Inr (xs[length xs - 1 := v])"
  by (cases xs) (simp_all add: py_set_def)

section \<open>Shapes\<close>

lemma is_matI: "length A = h \<Longrightarrow> (\<And>i. i < h \<Longrightarrow> length (A ! i) = w) \<Longrightarrow> is_mat h w A"
  by (auto simp: is_mat_def list_all_length)

lemma is_mat_length: "is_mat h w A \<Longrightarrow> length A = h"
  by (simp add: is_mat_def)

lemma is_mat_row: "is_mat h w A \<Longrightarrow> i < h \<Longrightarrow> length (A ! i) = w"
  by (auto simp: is_mat_def list_all_length)

lemma is_mat_nrows: "is_mat h w A \<Longrightarrow> nrows A = h"
  by (simp add: nrows_def is_mat_def)

lemma is_mat_ncols: "is_mat h w A \<Longrightarrow> 0 < h \<Longrightarrow> ncols A = w"
  by (cases A) (auto simp: is_mat_def ncols_def)

lemma mat_eqI:
  assumes "is_mat h w A" "is_mat h w B" "\<And>i j. i < h \<Longrightarrow> j < w \<Longrightarrow> A ! i ! j = B ! i ! j"
  shows "A = B"
proof (rule nth_equalityI)
  show "length A = length B" using assms(1,2) by (simp add: is_mat_length)
next
  fix i assume "i < length A"
  then have i: "i < h" using assms(1) by (simp add: is_mat_length)
  show "A ! i = B ! i"
  proof (rule nth_equalityI)
    show "length (A ! i) = length (B ! i)"
      using is_mat_row[OF assms(1) i] is_mat_row[OF assms(2) i] by simp
  next
    fix j assume "j < length (A ! i)"
    then have "j < w" using is_mat_row[OF assms(1) i] by simp
    then show "A ! i ! j = B ! i ! j" using assms(3) i by simp
  qed
qed

lemma is_grid_length: "is_grid m n h w G \<Longrightarrow> length G = m"
  by (simp add: is_grid_def)

lemma is_grid_row: "is_grid m n h w G \<Longrightarrow> i < m \<Longrightarrow> length (G ! i) = n"
  by (auto simp: is_grid_def list_all_length)

lemma is_grid_slot: "is_grid m n h w G \<Longrightarrow> i < m \<Longrightarrow> j < n \<Longrightarrow> is_mat h w (G ! i ! j)"
  by (auto simp: is_grid_def list_all_length)

lemma is_gridI:
  "length G = m \<Longrightarrow> (\<And>i. i < m \<Longrightarrow> length (G ! i) = n)
   \<Longrightarrow> (\<And>i j. i < m \<Longrightarrow> j < n \<Longrightarrow> is_mat h w (G ! i ! j)) \<Longrightarrow> is_grid m n h w G"
  by (auto simp: is_grid_def list_all_length)

lemma is_grid_update:
  assumes "is_grid m n h w G" "is_mat h w V"
  shows "is_grid m n h w (G[i := (G ! i)[j := V]])"
proof (rule is_gridI)
  show "length (G[i := (G ! i)[j := V]]) = m" using assms(1) by (simp add: is_grid_length)
next
  fix i' assume i': "i' < m"
  show "length (G[i := (G ! i)[j := V]] ! i') = n"
    using is_grid_row[OF assms(1) i'] i' is_grid_length[OF assms(1)]
    by (cases "i' = i") simp_all
next
  fix i' j' assume ij: "i' < m" "j' < n"
  have l: "length G = m" "length (G ! i') = n"
    using is_grid_length[OF assms(1)] is_grid_row[OF assms(1) ij(1)] by simp_all
  show "is_mat h w (G[i := (G ! i)[j := V]] ! i' ! j')"
  proof (cases "i' = i")
    case True
    then show ?thesis
      using l ij assms(2) is_grid_slot[OF assms(1) ij] by (cases "j' = j") simp_all
  next
    case False
    then show ?thesis using l ij is_grid_slot[OF assms(1) ij] by simp
  qed
qed

lemma broadcast_to_same:
  assumes "is_mat h w V" "0 < h"
  shows "broadcast_to h w V = Inr V"
proof -
  let ?M = "map (\<lambda>i. map (\<lambda>j. V ! (if h = 1 then 0 else i) ! (if w = 1 then 0 else j)) [0..<w]) [0..<h]"
  have "?M = V"
  proof (rule mat_eqI[OF _ assms(1)])
    show "is_mat h w ?M" by (rule is_matI) simp_all
  next
    fix i j assume "i < h" "j < w"
    then show "?M ! i ! j = V ! i ! j" by auto
  qed
  then show ?thesis
    using is_mat_nrows[OF assms(1)] is_mat_ncols[OF assms] by (simp add: broadcast_to_def)
qed

lemma get2_nat:
  "m < length G \<Longrightarrow> n < length (G ! m) \<Longrightarrow> get2 G (int m) (int n) = Inr (G ! m ! n)"
  by (simp add: get2_def py_get_nat)

lemma get2_last:
  "G \<noteq> [] \<Longrightarrow> n < length (G ! (length G - 1)) \<Longrightarrow> get2 G (- 1) (int n) = Inr (G ! (length G - 1) ! n)"
  by (simp add: get2_def py_get_last py_get_nat)

lemma get2_pred:
  "0 < m \<Longrightarrow> m \<le> length G \<Longrightarrow> n < length (G ! (m - 1))
   \<Longrightarrow> get2 G (int m - 1) (int n) = Inr (G ! (m - 1) ! n)"
  by (simp add: get2_def py_get_pred py_get_nat)

lemma get2_succ:
  "Suc m < length G \<Longrightarrow> n < length (G ! Suc m)
   \<Longrightarrow> get2 G (int m + 1) (int n) = Inr (G ! Suc m ! n)"
  by (simp add: get2_def py_get_succ py_get_nat)

lemma set2_nat:
  assumes "m < length G" "n < length (G ! m)" "is_mat h w (G ! m ! n)" "is_mat h w V" "0 < h"
  shows "set2 G (int m) (int n) V = Inr (G[m := (G ! m)[n := V]])"
  using assms(1,2) broadcast_to_same[OF assms(4,5)]
    is_mat_nrows[OF assms(3)] is_mat_ncols[OF assms(3,5)]
  by (simp add: set2_def py_get_nat py_set_nat)

lemma set2_last:
  assumes "G \<noteq> []" "n < length (G ! (length G - 1))" "is_mat h w (G ! (length G - 1) ! n)"
    "is_mat h w V" "0 < h"
  shows "set2 G (- 1) (int n) V = Inr (G[length G - 1 := (G ! (length G - 1))[n := V]])"
  using assms(1,2) broadcast_to_same[OF assms(4,5)]
    is_mat_nrows[OF assms(3)] is_mat_ncols[OF assms(3,5)]
  by (simp add: set2_def py_get_last py_set_last py_get_nat py_set_nat)

section \<open>Loops\<close>

lemma efold_append: "efold f (xs @ ys) s = ebind (efold f xs s) (efold f ys)"
  by (induction xs arbitrary: s) (auto simp: ebind_def split: sum.splits)

lemma efold_upt_inv:
  assumes "I 0 s" and "\<And>i s. i < n \<Longrightarrow> I i s \<Longrightarrow> \<exists>s'. f i s = Inr s' \<and> I (Suc i) s'"
  shows "\<exists>s'. efold f [0..<n] s = Inr s' \<and> I n s'"
  using assms(2)
proof (induction n)
  case 0
  then show ?case using assms(1) by simp
next
  case (Suc n)
  then obtain s1 where s1: "efold f [0..<n] s = Inr s1" "I n s1" by force
  from Suc.prems[of n s1] s1 obtain s2 where "f n s1 = Inr s2" "I (Suc n) s2" by auto
  then show ?case using s1 by (simp add: efold_append)
qed

lemma efold_rev_upt_inv:
  assumes "I n s" and "\<And>i s. i < n \<Longrightarrow> I (Suc i) s \<Longrightarrow> \<exists>s'. f i s = Inr s' \<and> I i s'"
  shows "\<exists>s'. efold f (rev [0..<n]) s = Inr s' \<and> I 0 s'"
  using assms
proof (induction n arbitrary: s)
  case 0
  then show ?case by simp
next
  case (Suc n)
  from Suc.prems(2)[of n s] Suc.prems(1) obtain s1 where s1: "f n s = Inr s1" "I n s1" by auto
  from Suc.IH[OF s1(2)] Suc.prems(2) obtain s2 where "efold f (rev [0..<n]) s1 = Inr s2" "I 0 s2"
    by (metis less_Suc_eq)
  then show ?case using s1 by simp
qed

lemma for_each_append:
  "for_each (xs @ ys) body ws =
     (case for_each xs body ws of (None, ws') \<Rightarrow> for_each ys body ws' | (Some e, ws') \<Rightarrow> (Some e, ws'))"
  by (induction xs arbitrary: ws) (auto split: prod.splits option.splits)

lemma for_each_upt_inv:
  assumes "I 0 ws"
    and "\<And>i ws. i < n \<Longrightarrow> I i ws \<Longrightarrow> \<exists>ws'. body i ws = (None, ws') \<and> I (Suc i) ws'"
  shows "\<exists>ws'. for_each [0..<n] body ws = (None, ws') \<and> I n ws'"
  using assms(2)
proof (induction n)
  case 0
  then show ?case using assms(1) by simp
next
  case (Suc n)
  then obtain s1 where s1: "for_each [0..<n] body ws = (None, s1)" "I n s1" by force
  from Suc.prems[of n s1] s1 obtain s2 where "body n s1 = (None, s2)" "I (Suc n) s2" by auto
  then show ?case using s1 by (simp add: for_each_append)
qed

lemma for_each_rev_upt_inv:
  assumes "I n ws"
    and "\<And>i ws. i < n \<Longrightarrow> I (Suc i) ws \<Longrightarrow> \<exists>ws'. body i ws = (None, ws') \<and> I i ws'"
  shows "\<exists>ws'. for_each (rev [0..<n]) body ws = (None, ws') \<and> I 0 ws'"
  using assms
proof (induction n arbitrary: ws)
  case 0
  then show ?case by simp
next
  case (Suc n)
  from Suc.prems(2)[of n ws] Suc.prems(1) obtain s1 where s1: "body n ws = (None, s1)" "I n s1"
    by auto
  from Suc.IH[OF s1(2)] Suc.prems(2)
  obtain s2 where "for_each (rev [0..<n]) body s1 = (None, s2)" "I 0 s2"
    by (metis less_Suc_eq)
  then show ?case using s1 by simp
qed


lemma eval_ok: "ex ws = Inr v \<Longrightarrow> eval ex k ws = k v ws"
  by (simp add: eval_def)

section \<open>Frames\<close>

lemma for_each_keeps:
  assumes "\<And>i ws. f (snd (body i ws)) = f ws"
  shows "f (snd (for_each xs body ws)) = f ws"
proof (induction xs arbitrary: ws)
  case Nil
  show ?case by simp
next
  case (Cons i xs)
  show ?case
  proof (cases "body i ws")
    case (Pair e ws')
    then have "f ws' = f ws" using assms[of i ws] by simp
    then show ?thesis using Pair Cons.IH[of ws'] by (cases e) simp_all
  qed
qed

lemma seq_keeps:
  assumes "\<And>ws. f (snd (c1 ws)) = f ws" "\<And>ws. f (snd (c2 ws)) = f ws"
  shows "f (snd (seq c1 c2 ws)) = f ws"
proof (cases "c1 ws")
  case (Pair e ws')
  then have "f ws' = f ws" using assms(1)[of ws] by simp
  then show ?thesis using Pair assms(2)[of ws'] by (cases e) (simp_all add: seq_def)
qed

lemma eval_keeps:
  assumes "\<And>v ws. f (snd (k v ws)) = f ws"
  shows "f (snd (eval ex k ws)) = f ws"
  using assms by (simp add: eval_def split: sum.splits)

lemma raise_keeps: "f (snd (raise e ws)) = f ws"
  by (simp add: raise_def)

lemma skip_keeps: "f (snd (skip ws)) = f ws"
  by (simp add: skip_def)

lemma assign_P_keeps:
  "E (snd (assign_P m n V ws)) = E ws" "Pt (snd (assign_P m n V ws)) = Pt ws"
  "Et (snd (assign_P m n V ws)) = Et ws" "blocks (snd (assign_P m n V ws)) = blocks ws"
  by (simp_all add: assign_P_def eval_def split: sum.splits)

lemma assign_E_keeps:
  "P (snd (assign_E m n V ws)) = P ws" "Pt (snd (assign_E m n V ws)) = Pt ws"
  "Et (snd (assign_E m n V ws)) = Et ws" "blocks (snd (assign_E m n V ws)) = blocks ws"
  by (simp_all add: assign_E_def eval_def split: sum.splits)

lemma assign_Pt_keeps:
  "P (snd (assign_Pt m n V ws)) = P ws" "E (snd (assign_Pt m n V ws)) = E ws"
  "Et (snd (assign_Pt m n V ws)) = Et ws" "blocks (snd (assign_Pt m n V ws)) = blocks ws"
  by (simp_all add: assign_Pt_def eval_def split: sum.splits)

lemma assign_Et_keeps:
  "P (snd (assign_Et m n V ws)) = P ws" "E (snd (assign_Et m n V ws)) = E ws"
  "Pt (snd (assign_Et m n V ws)) = Pt ws" "blocks (snd (assign_Et m n V ws)) = blocks ws"
  by (simp_all add: assign_Et_def eval_def split: sum.splits)

lemma stage1_block_blocks:
  "blocks (snd (stage1_block r wgt Zrb Zbr n m ws)) = blocks ws"
  unfolding stage1_block_def
  by (intro eval_keeps seq_keeps assign_P_keeps assign_E_keeps assign_Pt_keeps assign_Et_keeps)

lemma alg5_stage1_blocks:
  "blocks (snd (alg5_stage1 m_size n_size r wgt matrices ws)) = blocks ws"
  unfolding alg5_stage1_def
  by (auto split: list.splits intro!: for_each_keeps raise_keeps stage1_block_blocks)

lemma stage2_step_keeps:
  "E (snd (stage2_step AbF n m ws)) = E ws" "Pt (snd (stage2_step AbF n m ws)) = Pt ws"
  "Et (snd (stage2_step AbF n m ws)) = Et ws" "blocks (snd (stage2_step AbF n m ws)) = blocks ws"
  unfolding stage2_step_def by (intro eval_keeps assign_P_keeps)+

lemma stage3_step_keeps:
  "P (snd (stage3_step AbR HA n m ws)) = P ws" "Pt (snd (stage3_step AbR HA n m ws)) = Pt ws"
  "Et (snd (stage3_step AbR HA n m ws)) = Et ws" "blocks (snd (stage3_step AbR HA n m ws)) = blocks ws"
  unfolding stage3_step_def by (intro eval_keeps assign_E_keeps)+

lemma alg5_stage23_keeps:
  "Pt (snd (alg5_stage23 m_size n_size matrices ws)) = Pt ws"
  "Et (snd (alg5_stage23 m_size n_size matrices ws)) = Et ws"
  "blocks (snd (alg5_stage23 m_size n_size matrices ws)) = blocks ws"
  unfolding alg5_stage23_def
  by (auto split: list.splits
      intro!: for_each_keeps seq_keeps raise_keeps stage2_step_keeps stage3_step_keeps)

lemma stage4_step_keeps:
  "P (snd (stage4_step A1 A2 A3 A4 m n ws)) = P ws" "E (snd (stage4_step A1 A2 A3 A4 m n ws)) = E ws"
  "Et (snd (stage4_step A1 A2 A3 A4 m n ws)) = Et ws"
  "blocks (snd (stage4_step A1 A2 A3 A4 m n ws)) = blocks ws"
  unfolding stage4_step_def by (intro eval_keeps assign_Pt_keeps)+

lemma stage5_step_keeps:
  "P (snd (stage5_step A1 A2 A3 A4 A5 m n ws)) = P ws"
  "E (snd (stage5_step A1 A2 A3 A4 A5 m n ws)) = E ws"
  "Pt (snd (stage5_step A1 A2 A3 A4 A5 m n ws)) = Pt ws"
  "blocks (snd (stage5_step A1 A2 A3 A4 A5 m n ws)) = blocks ws"
  unfolding stage5_step_def by (intro eval_keeps assign_Et_keeps)+

lemma alg5_stage45_keeps:
  "P (snd (alg5_stage45 m_size n_size matrices ws)) = P ws"
  "E (snd (alg5_stage45 m_size n_size matrices ws)) = E ws"
  "blocks (snd (alg5_stage45 m_size n_size matrices ws)) = blocks ws"
  unfolding alg5_stage45_def
  by (auto split: list.splits
      intro!: for_each_keeps seq_keeps raise_keeps stage4_step_keeps stage5_step_keeps)

text \<open>
  C9: each carry-propagation stage writes only its own carry arrays and never the
  image blocks. Whatever the input, and whether the stage ends or raises,
  \<open>alg5_stage1\<close> leaves the block grid as it was, \<open>alg5_stage23\<close> leaves
  \<open>Pt\<close>, \<open>Et\<close> and the blocks as they were, and \<open>alg5_stage45\<close> leaves
  \<open>P\<close>, \<open>E\<close> and the blocks as they were.
\<close>

theorem stages_frame:
  "blocks (snd (alg5_stage1 m_size n_size r wgt matrices ws)) = blocks ws \<and>
   (Pt (snd (alg5_stage23 m_size n_size matrices ws)) = Pt ws \<and>
    Et (snd (alg5_stage23 m_size n_size matrices ws)) = Et ws \<and>
    blocks (snd (alg5_stage23 m_size n_size matrices ws)) = blocks ws) \<and>
   (P (snd (alg5_stage45 m_size n_size matrices ws)) = P ws \<and>
    E (snd (alg5_stage45 m_size n_size matrices ws)) = E ws \<and>
    blocks (snd (alg5_stage45 m_size n_size matrices ws)) = blocks ws)"
  by (simp add: alg5_stage1_blocks alg5_stage23_keeps alg5_stage45_keeps)

section \<open>Elementary matrices\<close>

text \<open>
  C5, as stated, fails: the last four matrices of the pack are computed from the image
  width and height, so two runs with the same \<open>(w, b, r)\<close> and different sizes
  return different packs.
\<close>

theorem build_alg5_matrices_width_height_counterexample:
  "build_alg5_matrices 2 1 [3, 2::int] 1 1 \<noteq> build_alg5_matrices 2 1 [3, 2] 2 3"
  by code_simp

text \<open>
  C5, amended: the first 21 matrices of the pack (\<open>Zrb\<close> to \<open>AbarR\<close>) depend
  only on the weights, the block side and the order: two runs of
  \<open>build_alg5_matrices\<close> with the same \<open>(w, b, r)\<close> that both return agree on
  them, whatever the width and height arguments.
\<close>

theorem build_alg5_matrices_prefix:
  assumes "build_alg5_matrices b r wgt width height = Inr pack"
    and "build_alg5_matrices b r wgt width' height' = Inr pack'"
  shows "take 21 pack = take 21 pack'"
  using assms
  by (auto simp: build_alg5_matrices_def Let_def ebind_def split: sum.splits)

theorem build_alg5_matrices_prefix_witness:
  "build_alg5_matrices 2 1 [3, 2::int] 1 1 = Inr
     [[[0, 0]], [[0], [0]], [[1]], [[1, 0], [0, 1]], [[- 2], [4]],
      [[3, 0], [- 6, 3]], [[4]], [[4]], [[- 30]], [[4]], [[4]], [[- 30]],
      [[45], [- 18]], [[- 30], [12]], [[- 6], [3]], [[4], [- 2]], [[1]],
      [[- 2]], [[- 2]], [[3]], [[3]], [[- 2]], [[- 2]], [[- 2]], [[- 2]]] \<and>
   build_alg5_matrices 2 1 [3, 2::int] 2 3 = Inr
     [[[0, 0]], [[0], [0]], [[1]], [[1, 0], [0, 1]], [[- 2], [4]],
      [[3, 0], [- 6, 3]], [[4]], [[4]], [[- 30]], [[4]], [[4]], [[- 30]],
      [[45], [- 18]], [[- 30], [12]], [[- 6], [3]], [[4], [- 2]], [[1]],
      [[- 2]], [[- 2]], [[3]], [[3]], [[4]], [[4]], [[- 8]], [[- 8]]] \<and>
   take 21 [[[0, 0]], [[0], [0]], [[1]], [[1, 0], [0, 1]], [[- 2], [4]],
      [[3, 0], [- 6, 3]], [[4]], [[4]], [[- 30]], [[4]], [[4]], [[- 30]],
      [[45], [- 18]], [[- 30], [12]], [[- 6], [3]], [[4], [- 2]], [[1]],
      [[- 2]], [[- 2]], [[3]], [[3]], [[- 2]], [[- 2]], [[- 2]], [[- 2::int]]]
   = take 21 [[[0, 0]], [[0], [0]], [[1]], [[1, 0], [0, 1]], [[- 2], [4]],
      [[3, 0], [- 6, 3]], [[4]], [[4]], [[- 30]], [[4]], [[4]], [[- 30]],
      [[45], [- 18]], [[- 30], [12]], [[- 6], [3]], [[4], [- 2]], [[1]],
      [[- 2]], [[- 2]], [[3]], [[3]], [[4]], [[4]], [[- 8]], [[- 8]]]"
proof -
  have a: "build_alg5_matrices 2 1 [3, 2::int] 1 1 = Inr
     [[[0, 0]], [[0], [0]], [[1]], [[1, 0], [0, 1]], [[- 2], [4]],
      [[3, 0], [- 6, 3]], [[4]], [[4]], [[- 30]], [[4]], [[4]], [[- 30]],
      [[45], [- 18]], [[- 30], [12]], [[- 6], [3]], [[4], [- 2]], [[1]],
      [[- 2]], [[- 2]], [[3]], [[3]], [[- 2]], [[- 2]], [[- 2]], [[- 2]]]"
    by code_simp
  have b: "build_alg5_matrices 2 1 [3, 2::int] 2 3 = Inr
     [[[0, 0]], [[0], [0]], [[1]], [[1, 0], [0, 1]], [[- 2], [4]],
      [[3, 0], [- 6, 3]], [[4]], [[4]], [[- 30]], [[4]], [[4]], [[- 30]],
      [[45], [- 18]], [[- 30], [12]], [[- 6], [3]], [[4], [- 2]], [[1]],
      [[- 2]], [[- 2]], [[3]], [[3]], [[4]], [[4]], [[- 8]], [[- 8]]]"
    by code_simp
  show ?thesis using build_alg5_matrices_prefix[OF a b] a b by blast
qed

section \<open>CPE stage 1\<close>

text \<open>
  C4 at a grid of a single block (\<open>M = N = 1\<close>, \<open>b = 2\<close>, \<open>r = 1\<close>): the block
  is at \<open>m = 0\<close>, so the branch for \<open>m = m_size - 1\<close> is not taken and
  \<open>E[1][0]\<close> keeps its zeros instead of the tile \<open>[[3, 4]]\<close> of the last row;
  in the same way \<open>Et[0][1]\<close> keeps its zeros. The slots \<open>P[-1][0]\<close> and
  \<open>Pt[0][-1]\<close> are set.
\<close>

theorem alg5_cpe_stage1_single_block:
  "alg5_cpe_stage1 1 1 1 [2, 1] [np_zeros 1 2, np_zeros 2 1]
     (unpack_carries (build_alg5_carries 1 1 2 1) [[[[1, 2], [3, 4::int]]]])
   = (None, \<lparr>P = [[[[4, 4]]], [[[1, 2]]]], E = [[[[- 4, 0]]], [[[0, 0]]]],
        Pt = [[[[8], [0]], [[- 4], [8]]]], Et = [[[[- 32], [32]], [[0], [0]]]],
        blocks = [[[[1, 2], [3, 4]]]]\<rparr>)"
  by code_simp

section \<open>Block decomposition\<close>

lemma slice2_block:
  assumes "is_mat h w X" "(m + 1) * b \<le> h" "(n + 1) * b \<le> w"
  shows "is_mat b b (slice2 X (m * b) ((m + 1) * b) (n * b) ((n + 1) * b))"
    and "i < b \<Longrightarrow> j < b \<Longrightarrow>
         slice2 X (m * b) ((m + 1) * b) (n * b) ((n + 1) * b) ! i ! j = X ! (m * b + i) ! (n * b + j)"
proof -
  have len: "length X = h" using assms(1) by (rule is_mat_length)
  have mb: "m * b + b \<le> h" and nb: "n * b + b \<le> w" using assms(2,3) by (simp_all add: algebra_simps)
  have row: "length (X ! (m * b + i)) = w" if "i < b" for i
    using is_mat_row[OF assms(1), of "m * b + i"] that mb by simp
  have sl: "slice2 X (m * b) ((m + 1) * b) (n * b) ((n + 1) * b)
        = map (\<lambda>row. take b (drop (n * b) row)) (take b (drop (m * b) X))"
    by (simp add: slice2_def)
  show "is_mat b b (slice2 X (m * b) ((m + 1) * b) (n * b) ((n + 1) * b))"
    unfolding sl
  proof (rule is_matI)
    show "length (map (\<lambda>row. take b (drop (n * b) row)) (take b (drop (m * b) X))) = b"
      using len mb by simp
  next
    fix i assume i: "i < b"
    then show "length (map (\<lambda>row. take b (drop (n * b) row)) (take b (drop (m * b) X)) ! i) = b"
      using len mb nb row[OF i] by simp
  qed
  show "slice2 X (m * b) ((m + 1) * b) (n * b) ((n + 1) * b) ! i ! j = X ! (m * b + i) ! (n * b + j)"
    if "i < b" "j < b"
    unfolding sl using that len mb nb row[OF that(1)] by simp
qed

lemma is_grid_replicate: "is_mat h w V \<Longrightarrow> is_grid m n h w (replicate m (replicate n V))"
  by (rule is_gridI) simp_all

lemma is_mat_np_empty: "is_mat h w (np_empty junk h w)"
  by (rule is_matI) (simp_all add: np_empty_def)

lemma break_blocks_loops:
  fixes X :: "'a mat"
  assumes X: "is_mat h w X" and b: "0 < b" and M: "M * b = h" and N: "N * b = w"
    and G0: "is_grid M N b b G0"
  defines "blk \<equiv> \<lambda>m n. slice2 X (m * b) ((m + 1) * b) (n * b) ((n + 1) * b)"
  shows "\<exists>G. efold (\<lambda>m. efold (\<lambda>n blocks. set2 blocks (int m) (int n) (blk m n)) [0..<N])
               [0..<M] G0 = Inr G
             \<and> is_grid M N b b G \<and> (\<forall>m<M. \<forall>n<N. G ! m ! n = blk m n)"
proof -
  have blk_mat: "is_mat b b (blk m n)" if "m < M" "n < N" for m n
  proof -
    have "m + 1 \<le> M" "n + 1 \<le> N" using that by simp_all
    from mult_le_mono1[OF this(1), of b] mult_le_mono1[OF this(2), of b]
    have "(m + 1) * b \<le> M * b" "(n + 1) * b \<le> N * b" .
    then show ?thesis unfolding blk_def using slice2_block(1)[OF X] M N by simp
  qed
  define Io where "Io m G \<longleftrightarrow> is_grid M N b b G \<and> (\<forall>m'<m. \<forall>n<N. G ! m' ! n = blk m' n)"
    for m and G :: "'a grid"
  define Ii where "Ii m n G \<longleftrightarrow> is_grid M N b b G \<and> (\<forall>m'<m. \<forall>n<N. G ! m' ! n = blk m' n)
                     \<and> (\<forall>n'<n. G ! m ! n' = blk m n')"
    for m n and G :: "'a grid"
  have inner: "\<exists>G'. set2 G (int m) (int n) (blk m n) = Inr G' \<and> Ii m (Suc n) G'"
    if "m < M" "n < N" "Ii m n G" for m n G
  proof -
    have g: "is_grid M N b b G" using that(3) by (simp add: Ii_def)
    have l: "length G = M" "length (G ! m) = N"
      using is_grid_length[OF g] is_grid_row[OF g that(1)] by simp_all
    let ?G' = "G[m := (G ! m)[n := blk m n]]"
    have s: "set2 G (int m) (int n) (blk m n) = Inr ?G'"
      by (rule set2_nat[OF _ _ is_grid_slot[OF g that(1,2)] blk_mat[OF that(1,2)] b])
         (use l that in simp_all)
    have "is_grid M N b b ?G'" by (rule is_grid_update[OF g blk_mat[OF that(1,2)]])
    moreover have "\<forall>m'<m. \<forall>n<N. ?G' ! m' ! n = blk m' n"
      using that(3) by (simp add: Ii_def)
    moreover have "\<forall>n'<Suc n. ?G' ! m ! n' = blk m n'"
      using that l by (auto simp: Ii_def less_Suc_eq nth_list_update)
    ultimately show ?thesis using s by (simp add: Ii_def)
  qed
  have outer: "\<exists>G'. efold (\<lambda>n blocks. set2 blocks (int m) (int n) (blk m n)) [0..<N] G = Inr G'
                 \<and> Io (Suc m) G'"
    if "m < M" "Io m G" for m G
  proof -
    have "\<exists>G'. efold (\<lambda>n blocks. set2 blocks (int m) (int n) (blk m n)) [0..<N] G = Inr G'
                 \<and> Ii m N G'"
    proof (rule efold_upt_inv[where I = "Ii m"])
      show "Ii m 0 G" using that(2) by (simp add: Io_def Ii_def)
    next
      fix i s assume "i < N" "Ii m i s"
      then show "\<exists>s'. set2 s (int m) (int i) (blk m i) = Inr s' \<and> Ii m (Suc i) s'"
        by (rule inner[OF that(1)])
    qed
    then show ?thesis by (auto simp: Io_def Ii_def less_Suc_eq)
  qed
  have "\<exists>G. efold (\<lambda>m. efold (\<lambda>n blocks. set2 blocks (int m) (int n) (blk m n)) [0..<N])
               [0..<M] G0 = Inr G \<and> Io M G"
  proof (rule efold_upt_inv[where I = Io])
    show "Io 0 G0" using G0 by (simp add: Io_def)
  next
    fix i s assume "i < M" "Io i s"
    then show "\<exists>s'. efold (\<lambda>n blocks. set2 blocks (int i) (int n) (blk i n)) [0..<N] s = Inr s'
                  \<and> Io (Suc i) s'"
      by (rule outer)
  qed
  then show ?thesis by (simp add: Io_def)
qed

lemma ceil_div_exact:
  assumes "0 < b"
  shows "(b * k + b - 1) div b = (k::nat)"
proof -
  have "b * k + b - 1 = (b - 1) + b * k" using assms by simp
  then show ?thesis using assms by (simp only: div_mult_self2) simp
qed

lemma get_mn_exact:
  assumes "is_mat h w X" "0 < b" "b dvd h" "b dvd w" "0 < h"
  shows "get_mn X b = Inr (h div b, w div b)"
proof -
  have "(h + b - 1) div b = h div b" "(w + b - 1) div b = w div b"
    using assms(2,3,4) ceil_div_exact[OF assms(2)] by (auto elim!: dvdE)
  then show ?thesis
    using assms(2) is_mat_nrows[OF assms(1)] is_mat_ncols[OF assms(1,5)] by (simp add: get_mn_def)
qed





section \<open>Joining the blocks\<close>

lemma set_slice2_block:
  assumes img: "is_mat h w img" and V: "is_mat b b V" and b: "0 < b"
    and mb: "(m + 1) * b \<le> h" and nb: "(n + 1) * b \<le> w"
  shows "\<exists>img'. set_slice2 h w img (m * b) ((m + 1) * b) (n * b) ((n + 1) * b) V = Inr img' \<and>
           is_mat h w img' \<and>
           (\<forall>i<h. \<forall>j<w. img' ! i ! j =
              (if m * b \<le> i \<and> i < (m + 1) * b \<and> n * b \<le> j \<and> j < (n + 1) * b
               then V ! (i - m * b) ! (j - n * b) else img ! i ! j))"
proof -
  have "min ((m + 1) * b) h - min (m * b) h = b" "min ((n + 1) * b) w - min (n * b) w = b"
    using mb nb by (simp_all add: min_def)
  then have s: "set_slice2 h w img (m * b) ((m + 1) * b) (n * b) ((n + 1) * b) V =
      Inr (map (\<lambda>i. map (\<lambda>j. if m * b \<le> i \<and> i < (m + 1) * b \<and> n * b \<le> j \<and> j < (n + 1) * b
                              then V ! (i - m * b) ! (j - n * b) else img ! i ! j) [0..<w]) [0..<h])"
    unfolding set_slice2_def by (simp only: broadcast_to_same[OF V b] ebind_Inr)
  let ?R = "map (\<lambda>i. map (\<lambda>j. if m * b \<le> i \<and> i < (m + 1) * b \<and> n * b \<le> j \<and> j < (n + 1) * b
                              then V ! (i - m * b) ! (j - n * b) else img ! i ! j) [0..<w]) [0..<h]"
  have 1: "is_mat h w ?R" by (rule is_matI) simp_all
  have 2: "?R ! i ! j = (if m * b \<le> i \<and> i < (m + 1) * b \<and> n * b \<le> j \<and> j < (n + 1) * b
               then V ! (i - m * b) ! (j - n * b) else img ! i ! j)" if "i < h" "j < w" for i j
    using that by simp
  show ?thesis using s 1 2 by blast
qed

lemma join_blocks_loops:
  fixes X :: "'a mat"
  assumes X: "is_mat h w X" and b: "0 < b" and M: "M * b = h" and N: "N * b = w"
    and G: "is_grid M N b b G"
    and cells: "\<And>m n i j. m < M \<Longrightarrow> n < N \<Longrightarrow> i < b \<Longrightarrow> j < b
                 \<Longrightarrow> G ! m ! n ! i ! j = X ! (m * b + i) ! (n * b + j)"
    and img0: "is_mat h w img0"
  shows "efold (\<lambda>m. efold (\<lambda>n img. ebind (get2 G (int m) (int n))
                   (set_slice2 h w img (m * b) ((m + 1) * b) (n * b) ((n + 1) * b))) [0..<N])
           [0..<M] img0 = Inr X"
proof -
  define Ii where "Ii m n img \<longleftrightarrow> is_mat h w img \<and>
      (\<forall>i<h. \<forall>j<w. i < m * b \<or> (i < (m + 1) * b \<and> j < n * b) \<longrightarrow> img ! i ! j = X ! i ! j)"
    for m n and img :: "'a mat"
  define Io where "Io m img \<longleftrightarrow> is_mat h w img \<and> (\<forall>i<h. \<forall>j<w. i < m * b \<longrightarrow> img ! i ! j = X ! i ! j)"
    for m and img :: "'a mat"
  have inner: "\<exists>img'. ebind (get2 G (int m) (int n))
                   (set_slice2 h w img (m * b) ((m + 1) * b) (n * b) ((n + 1) * b)) = Inr img'
                 \<and> Ii m (Suc n) img'"
    if mn: "m < M" "n < N" and inv: "Ii m n img" for m n img
  proof -
    have "m + 1 \<le> M" "n + 1 \<le> N" using mn by simp_all
    from mult_le_mono1[OF this(1), of b] mult_le_mono1[OF this(2), of b]
    have le: "(m + 1) * b \<le> h" "(n + 1) * b \<le> w" using M N by simp_all
    have g: "get2 G (int m) (int n) = Inr (G ! m ! n)"
      using is_grid_length[OF G] is_grid_row[OF G mn(1)] mn by (simp add: get2_nat)
    have img: "is_mat h w img" using inv by (simp add: Ii_def)
    from set_slice2_block[OF img is_grid_slot[OF G mn] b le]
    obtain img' where img': 
      "set_slice2 h w img (m * b) ((m + 1) * b) (n * b) ((n + 1) * b) (G ! m ! n) = Inr img'"
      "is_mat h w img'"
      "\<forall>i<h. \<forall>j<w. img' ! i ! j =
              (if m * b \<le> i \<and> i < (m + 1) * b \<and> n * b \<le> j \<and> j < (n + 1) * b
               then G ! m ! n ! (i - m * b) ! (j - n * b) else img ! i ! j)"
      by blast
    have "img' ! i ! j = X ! i ! j"
      if ij: "i < h" "j < w" and c: "i < m * b \<or> (i < (m + 1) * b \<and> j < (Suc n) * b)" for i j
    proof (cases "m * b \<le> i \<and> i < (m + 1) * b \<and> n * b \<le> j \<and> j < (n + 1) * b")
      case True
      then have "i - m * b < b" "j - n * b < b" by (simp_all add: algebra_simps less_diff_conv2)
      from cells[OF mn this] True img'(3)[rule_format, OF ij] show ?thesis by simp
    next
      case False
      with img'(3)[rule_format, OF ij] have "img' ! i ! j = img ! i ! j" by (simp only: if_False)
      moreover have "i < m * b \<or> (i < (m + 1) * b \<and> j < n * b)"
        using False c by auto
      ultimately show ?thesis using inv ij unfolding Ii_def by metis
    qed
    then have "Ii m (Suc n) img'" using img'(2) by (simp add: Ii_def)
    then show ?thesis using g img'(1) by simp
  qed
  have outer: "\<exists>img'. efold (\<lambda>n img. ebind (get2 G (int m) (int n))
                   (set_slice2 h w img (m * b) ((m + 1) * b) (n * b) ((n + 1) * b))) [0..<N] img
                   = Inr img' \<and> Io (Suc m) img'"
    if m: "m < M" and inv: "Io m img" for m img
  proof -
    have "\<exists>img'. efold (\<lambda>n img. ebind (get2 G (int m) (int n))
                   (set_slice2 h w img (m * b) ((m + 1) * b) (n * b) ((n + 1) * b))) [0..<N] img
                   = Inr img' \<and> Ii m N img'"
    proof (rule efold_upt_inv[where I = "Ii m"])
      show "Ii m 0 img" using inv by (simp add: Io_def Ii_def)
    next
      fix i s assume "i < N" "Ii m i s"
      then show "\<exists>s'. ebind (get2 G (int m) (int i))
             (set_slice2 h w s (m * b) ((m + 1) * b) (i * b) ((i + 1) * b)) = Inr s' \<and> Ii m (Suc i) s'"
        by (rule inner[OF m])
    qed
    then show ?thesis using N by (auto simp: Io_def Ii_def)
  qed
  have "\<exists>img'. efold (\<lambda>m. efold (\<lambda>n img. ebind (get2 G (int m) (int n))
                   (set_slice2 h w img (m * b) ((m + 1) * b) (n * b) ((n + 1) * b))) [0..<N])
           [0..<M] img0 = Inr img' \<and> Io M img'"
  proof (rule efold_upt_inv[where I = Io])
    show "Io 0 img0" using img0 by (simp add: Io_def)
  next
    fix i s assume "i < M" "Io i s"
    then show "\<exists>s'. efold (\<lambda>n img. ebind (get2 G (int i) (int n))
                   (set_slice2 h w img (i * b) ((i + 1) * b) (n * b) ((n + 1) * b))) [0..<N] s
                   = Inr s' \<and> Io (Suc i) s'"
      by (rule outer)
  qed
  then obtain img' where r: "efold (\<lambda>m. efold (\<lambda>n img. ebind (get2 G (int m) (int n))
                   (set_slice2 h w img (m * b) ((m + 1) * b) (n * b) ((n + 1) * b))) [0..<N])
           [0..<M] img0 = Inr img'" and "Io M img'" by blast
  then have "is_mat h w img'" "\<And>i j. i < h \<Longrightarrow> j < w \<Longrightarrow> img' ! i ! j = X ! i ! j"
    using M by (simp_all add: Io_def)
  then have "img' = X" by (rule mat_eqI[OF _ X])
  then show ?thesis using r by simp
qed

lemma roundtrip_nonempty:
  assumes "is_mat h w X" "0 < h" "0 < b" "b dvd h" "b dvd w"
  shows "\<exists>blocks. break_blocks junk X b None None = Inr blocks \<and>
           join_blocks junk' blocks b (h div b) (w div b) (h, w) = Inr X"
proof -
  let ?M = "h div b" and ?N = "w div b"
  have mn: "get_mn X b = Inr (?M, ?N)"
    by (rule get_mn_exact[OF assms(1,3,4,5,2)])
  have M: "?M * b = h" and N: "?N * b = w" using assms(4,5) by simp_all
  have G0: "is_grid ?M ?N b b (replicate ?M (replicate ?N (np_empty junk b b)))"
    by (rule is_grid_replicate[OF is_mat_np_empty])
  from break_blocks_loops[OF assms(1,3) M N G0]
  obtain G where G: "efold (\<lambda>m. efold (\<lambda>n blocks. set2 blocks (int m) (int n)
                       (slice2 X (m * b) ((m + 1) * b) (n * b) ((n + 1) * b))) [0..<?N])
               [0..<?M] (replicate ?M (replicate ?N (np_empty junk b b))) = Inr G"
    "is_grid ?M ?N b b G"
    "\<forall>m<?M. \<forall>n<?N. G ! m ! n = slice2 X (m * b) ((m + 1) * b) (n * b) ((n + 1) * b)"
    by blast
  have br: "break_blocks junk X b None None = Inr G"
    using mn G(1) by (simp add: break_blocks_def)
  have cells: "G ! m ! n ! i ! j = X ! (m * b + i) ! (n * b + j)"
    if "m < ?M" "n < ?N" "i < b" "j < b" for m n i j
  proof -
    have "m + 1 \<le> ?M" "n + 1 \<le> ?N" using that by simp_all
    from mult_le_mono1[OF this(1), of b] mult_le_mono1[OF this(2), of b]
    have "(m + 1) * b \<le> h" "(n + 1) * b \<le> w" using M N by simp_all
    from slice2_block(2)[OF assms(1) this that(3,4)] G(3) that(1,2)
    show ?thesis by simp
  qed
  have "join_blocks junk' G b ?M ?N (h, w) = Inr X"
    unfolding join_blocks_def prod.case
    by (rule join_blocks_loops[OF assms(1,3) M N G(2) cells is_mat_np_empty])
  then show ?thesis using br by blast
qed

text \<open>
  C10: for an image whose height and width are multiples of \<open>b\<close>, breaking it into
  blocks and joining the blocks again, with \<open>(M, N) = (H/b, W/b)\<close> and the shape of
  the image, returns the image, whatever the uninitialised arrays held.
\<close>

theorem join_break_roundtrip:
  assumes "is_mat h w X" "0 < b" "b dvd h" "b dvd w"
  shows "\<exists>blocks. break_blocks junk X b None None = Inr blocks \<and>
           join_blocks junk' blocks b (h div b) (w div b) (h, w) = Inr X"
proof (cases "h = 0")
  case True
  then have X: "X = []" using is_mat_length[OF assms(1)] by simp
  have "(b - 1) div b = 0" using assms(2) by simp
  then have "break_blocks junk X b None None = Inr []"
    using assms(2) by (simp add: X break_blocks_def get_mn_def nrows_def ncols_def)
  moreover have "join_blocks junk' [] b (h div b) (w div b) (h, w) = Inr X"
    using True by (simp add: X join_blocks_def np_empty_def)
  ultimately show ?thesis by blast
next
  case False
  then have "0 < h" by simp
  from roundtrip_nonempty[OF assms(1) this assms(2,3,4)] show ?thesis .
qed

theorem join_break_roundtrip_witness:
  "is_mat 2 4 [[1, 2, 3, 4], [5, 6, 7, 8::int]] \<and> (0::nat) < 2 \<and> (2::nat) dvd 2 \<and>
   (2::nat) dvd 4 \<and>
   break_blocks (\<lambda>i j. 0) [[1, 2, 3, 4], [5, 6, 7, 8::int]] 2 None None
     = Inr [[[[1, 2], [5, 6]], [[3, 4], [7, 8]]]] \<and>
   join_blocks (\<lambda>i j. 9) [[[[1, 2], [5, 6]], [[3, 4], [7, 8]]]] 2 1 2 (2, 4)
     = Inr [[1, 2, 3, 4], [5, 6, 7, 8::int]]"
proof -
  have m: "is_mat 2 4 [[1, 2, 3, 4], [5, 6, 7, 8::int]]" by (simp add: is_mat_def)
  have d: "(2::nat) dvd 2" "(2::nat) dvd 4" by simp_all
  have v: "break_blocks (\<lambda>i j. 0) [[1, 2, 3, 4], [5, 6, 7, 8::int]] 2 None None
     = Inr [[[[1, 2], [5, 6]], [[3, 4], [7, 8]]]]" by code_simp
  from join_break_roundtrip[OF m _ d, of "\<lambda>i j. 0" "\<lambda>i j. 9"] m d v show ?thesis by simp
qed

section \<open>Matrix algebra\<close>

lemma is_mat_zeros: "is_mat h w (np_zeros h w)"
  by (rule is_matI) (simp_all add: np_zeros_def)




lemma is_mat_add:
  assumes "is_mat h w A" "is_mat h w B"
  shows "is_mat h w (mat_add A B)"
proof (rule is_matI)
  show "length (mat_add A B) = h"
    using is_mat_length[OF assms(1)] is_mat_length[OF assms(2)] by (simp add: mat_add_def)
next
  fix i assume "i < h"
  then show "length (mat_add A B ! i) = w"
    using is_mat_length[OF assms(1)] is_mat_length[OF assms(2)]
      is_mat_row[OF assms(1)] is_mat_row[OF assms(2)] by (simp add: mat_add_def)
qed


lemma np_add_same:
  assumes "is_mat h w A" "is_mat h w B" "0 < h"
  shows "np_add A B = Inr (mat_add A B)"
  unfolding np_add_def np_zip_def mat_add_def
  using is_mat_nrows[OF assms(1)] is_mat_nrows[OF assms(2)]
    is_mat_ncols[OF assms(1,3)] is_mat_ncols[OF assms(2,3)]
    broadcast_to_same[OF assms(1,3)] broadcast_to_same[OF assms(2,3)]
  by (simp add: bdim_def)

lemma is_mat_mul:
  assumes "is_mat h k A" "is_mat k w B" "0 < k"
  shows "is_mat h w (mat_mul A B)"
proof (rule is_matI)
  show "length (mat_mul A B) = h" using is_mat_length[OF assms(1)] by (simp add: mat_mul_def)
next
  fix i assume "i < h"
  then show "length (mat_mul A B ! i) = w"
    using is_mat_length[OF assms(1)] is_mat_ncols[OF assms(2,3)] by (simp add: mat_mul_def)
qed


lemma np_dot_ok:
  assumes "is_mat h k A" "is_mat k w B" "0 < h"
  shows "np_dot A B = Inr (mat_mul A B)"
  using is_mat_ncols[OF assms(1,3)] is_mat_nrows[OF assms(2)] by (simp add: np_dot_def)












section \<open>The closed form of the forward carry sweep\<close>





section \<open>Stages 2 and 3\<close>


lemma grid_update_nth:
  assumes "m < length G" "n < length (G ! m)"
  shows "G[m := (G ! m)[n := V]] ! m' ! n' = (if m' = m \<and> n' = n then V else G ! m' ! n')"
  using assms by (cases "m' = m"; cases "n' = n") simp_all

lemma eadd_Inr: "eadd (Inr a) (Inr b) = np_add a b"
  by (simp add: eadd_def)

lemma edot_Inr: "edot (Inr a) (Inr b) = np_dot a b"
  by (simp add: edot_def)

lemma assign_P_ok: "set2 (P ws) m n V = Inr G \<Longrightarrow> assign_P m n V ws = (None, ws\<lparr>P := G\<rparr>)"
  by (simp add: assign_P_def eval_def)

lemma assign_E_ok: "set2 (E ws) m n V = Inr G \<Longrightarrow> assign_E m n V ws = (None, ws\<lparr>E := G\<rparr>)"
  by (simp add: assign_E_def eval_def)

lemma get2_before:
  assumes G: "is_grid (Suc M) N h w G" and m: "m < M" and n: "n < N"
  shows "get2 G (int m - 1) (int n) = Inr (G ! (if m = 0 then M else m - 1) ! n)"
proof (cases "m = 0")
  case True
  have "G \<noteq> []" using is_grid_length[OF G] by auto
  moreover have "length G - 1 = M" using is_grid_length[OF G] by simp
  moreover have "n < length (G ! M)" using is_grid_row[OF G, of M] n by simp
  ultimately show ?thesis using True get2_last[of G n] by simp
next
  case False
  have "n < length (G ! (m - 1))" using is_grid_row[OF G, of "m - 1"] m n by simp
  then show ?thesis
    using False m is_grid_length[OF G] get2_pred[of m G n] by simp
qed

lemma get2_at:
  assumes G: "is_grid M N h w G" and m: "m < M" and n: "n < N"
  shows "get2 G (int m) (int n) = Inr (G ! m ! n)"
  using is_grid_length[OF G] is_grid_row[OF G m] m n by (simp add: get2_nat)

lemma get2_after:
  assumes G: "is_grid (Suc M) N h w G" and m: "m < M" and n: "n < N"
  shows "get2 G (int m + 1) (int n) = Inr (G ! Suc m ! n)"
  using is_grid_length[OF G] is_grid_row[OF G, of "Suc m"] m n by (simp add: get2_succ)

lemma set2_at:
  assumes G: "is_grid M N h w G" and m: "m < M" and n: "n < N" and V: "is_mat h w V" and h: "0 < h"
  shows "set2 G (int m) (int n) V = Inr (G[m := (G ! m)[n := V]])"
  by (rule set2_nat[OF _ _ is_grid_slot[OF G m n] V h])
     (use is_grid_length[OF G] is_grid_row[OF G m] m n in simp_all)

lemma stage2_step_ok:
  assumes G: "is_grid (Suc M) N r b (P ws)" and A: "is_mat r r AbF" and r: "0 < r"
    and m: "m < M" and n: "n < N"
  shows "stage2_step AbF n m ws =
     (None, ws\<lparr>P := (P ws)[m := (P ws ! m)[n :=
        mat_add (P ws ! m ! n) (mat_mul AbF (P ws ! (if m = 0 then M else m - 1) ! n))]]\<rparr>)"
proof -
  let ?prev = "P ws ! (if m = 0 then M else m - 1) ! n"
  have m': "m < Suc M" using m by simp
  have pm: "is_mat r b (P ws ! m ! n)" by (rule is_grid_slot[OF G m' n])
  have pp: "is_mat r b ?prev" by (rule is_grid_slot[OF G _ n]) (use m in auto)
  have d: "is_mat r b (mat_mul AbF ?prev)" by (rule is_mat_mul[OF A pp r])
  have e: "eadd (get2 (P ws) (int m) (int n)) (edot (Inr AbF) (get2 (P ws) (int m - 1) (int n)))
        = Inr (mat_add (P ws ! m ! n) (mat_mul AbF ?prev))"
    by (simp only: get2_at[OF G m' n] get2_before[OF G m n] edot_Inr np_dot_ok[OF A pp r]
          eadd_Inr np_add_same[OF pm d r])
  show ?thesis
    unfolding stage2_step_def eval_def e
    by (simp add: assign_P_ok[OF set2_at[OF G m' n is_mat_add[OF pm d] r]])
qed


lemma stage3_step_ok:
  assumes GP: "is_grid (Suc M) N r b (P ws)" and GE: "is_grid (Suc M) N r b (E ws)"
    and A: "is_mat r r AbR" and HA: "is_mat r r HARB_AFP" and r: "0 < r"
    and m: "m < M" and n: "n < N"
  shows "\<exists>V. is_mat r b V \<and>
     stage3_step AbR HARB_AFP n m ws = (None, ws\<lparr>E := (E ws)[m := (E ws ! m)[n := V]]\<rparr>)"
proof -
  let ?prev = "P ws ! (if m = 0 then M else m - 1) ! n"
  have m': "m < Suc M" using m by simp
  have em: "is_mat r b (E ws ! m ! n)" by (rule is_grid_slot[OF GE m' n])
  have pp: "is_mat r b ?prev" by (rule is_grid_slot[OF GP _ n]) (use m in auto)
  have en: "is_mat r b (E ws ! Suc m ! n)" by (rule is_grid_slot[OF GE _ n]) (use m in simp)
  have d1: "is_mat r b (mat_mul HARB_AFP ?prev)" by (rule is_mat_mul[OF HA pp r])
  have d2: "is_mat r b (mat_mul AbR (E ws ! Suc m ! n))" by (rule is_mat_mul[OF A en r])
  have s1: "is_mat r b (mat_add (E ws ! m ! n) (mat_mul HARB_AFP ?prev))"
    by (rule is_mat_add[OF em d1])
  let ?V = "mat_add (mat_add (E ws ! m ! n) (mat_mul HARB_AFP ?prev)) (mat_mul AbR (E ws ! Suc m ! n))"
  have V: "is_mat r b ?V" by (rule is_mat_add[OF s1 d2])
  have e: "eadd (eadd (get2 (E ws) (int m) (int n))
                      (edot (Inr HARB_AFP) (get2 (P ws) (int m - 1) (int n))))
                (edot (Inr AbR) (get2 (E ws) (int m + 1) (int n))) = Inr ?V"
    by (simp only: get2_at[OF GE m' n] get2_before[OF GP m n] get2_after[OF GE m n] edot_Inr
          np_dot_ok[OF HA pp r] np_dot_ok[OF A en r] eadd_Inr np_add_same[OF em d1 r]
          np_add_same[OF s1 d2 r])
  have "stage3_step AbR HARB_AFP n m ws = (None, ws\<lparr>E := (E ws)[m := (E ws ! m)[n := ?V]]\<rparr>)"
    unfolding stage3_step_def eval_def e
    by (simp add: assign_E_ok[OF set2_at[OF GE m' n V r]])
  then show ?thesis using V by blast
qed

lemma stage3_column:
  fixes ws0 :: "'a::comm_ring_1 workspace"
  assumes GP: "is_grid (Suc M) N r b (P ws0)" and GE: "is_grid (Suc M) N r b (E ws0)"
    and A: "is_mat r r AbR" and HA: "is_mat r r HARB_AFP" and r: "0 < r" and n: "n < N"
  shows "\<exists>ws'. for_each (rev [0..<M]) (stage3_step AbR HARB_AFP n) ws0 = (None, ws') \<and>
           P ws' = P ws0 \<and> is_grid (Suc M) N r b (E ws')"
proof -
  define I where "I m ws \<longleftrightarrow> P ws = P ws0 \<and> is_grid (Suc M) N r b (E ws)"
    for m :: nat and ws :: "'a workspace"
  have "\<exists>ws'. for_each (rev [0..<M]) (stage3_step AbR HARB_AFP n) ws0 = (None, ws') \<and> I 0 ws'"
  proof (rule for_each_rev_upt_inv[where I = I])
    show "I M ws0" using GE by (simp add: I_def)
  next
    fix i ws assume i: "i < M" and inv: "I (Suc i) ws"
    have gp: "is_grid (Suc M) N r b (P ws)" and ge: "is_grid (Suc M) N r b (E ws)"
      using inv GP by (simp_all add: I_def)
    from stage3_step_ok[OF gp ge A HA r i n]
    obtain V where V: "is_mat r b V"
      "stage3_step AbR HARB_AFP n i ws = (None, ws\<lparr>E := (E ws)[i := (E ws ! i)[n := V]]\<rparr>)"
      by blast
    have "I i (ws\<lparr>E := (E ws)[i := (E ws ! i)[n := V]]\<rparr>)"
      using inv is_grid_update[OF ge V(1)] by (simp add: I_def)
    then show "\<exists>ws'. stage3_step AbR HARB_AFP n i ws = (None, ws') \<and> I i ws'"
      using V(2) by simp
  qed
  then show ?thesis by (simp add: I_def)
qed


section \<open>What stage 1 leaves in place\<close>


















section \<open>Periodic extension, stages 2 and 3\<close>

lemma efold_pure:
  assumes "\<And>i s. i \<in> set xs \<Longrightarrow> Q s \<Longrightarrow> f i s = Inr (g i s) \<and> Q (g i s)" "Q s"
  shows "efold f xs s = Inr (foldl (\<lambda>s i. g i s) s xs) \<and> Q (foldl (\<lambda>s i. g i s) s xs)"
  using assms
proof (induction xs arbitrary: s)
  case Nil
  then show ?case by simp
next
  case (Cons i xs)
  have 1: "f i s = Inr (g i s)" "Q (g i s)" using Cons.prems(1)[of i s] Cons.prems(2) by simp_all
  have "efold f xs (g i s) = Inr (foldl (\<lambda>s i. g i s) (g i s) xs)
        \<and> Q (foldl (\<lambda>s i. g i s) (g i s) xs)"
    by (rule Cons.IH[OF _ 1(2)]) (use Cons.prems(1) in simp)
  then show ?case using 1(1) by simp
qed

lemma pe_PM1Y_ok:
  fixes ws :: "'a::comm_ring_1 workspace"
  assumes GP: "is_grid (Suc M) N r b (P ws)" and A: "is_mat r r AbF" and r: "0 < r"
    and n: "n < N" and Z: "is_mat r b Zrb"
  shows "pe_PM1Y Zrb AbF M n ws =
           Inr (foldl (\<lambda>PM1Y m. mat_add (P ws ! m ! n) (mat_mul AbF PM1Y)) Zrb [0..<M])"
    and "is_mat r b (foldl (\<lambda>PM1Y m. mat_add (P ws ! m ! n) (mat_mul AbF PM1Y)) Zrb [0..<M])"
proof -
  have "efold (\<lambda>m PM1Y. eadd (get2 (P ws) (int m) (int n)) (edot (Inr AbF) (Inr PM1Y))) [0..<M] Zrb
      = Inr (foldl (\<lambda>PM1Y m. mat_add (P ws ! m ! n) (mat_mul AbF PM1Y)) Zrb [0..<M])
      \<and> is_mat r b (foldl (\<lambda>PM1Y m. mat_add (P ws ! m ! n) (mat_mul AbF PM1Y)) Zrb [0..<M])"
  proof (rule efold_pure[where Q = "is_mat r b"
          and g = "\<lambda>m PM1Y. mat_add (P ws ! m ! n) (mat_mul AbF PM1Y)"])
    show "is_mat r b Zrb" by (rule Z)
  next
    fix i and s :: "'a mat" assume i: "i \<in> set [0..<M]" and s: "is_mat r b s"
    have i': "i < Suc M" using i by simp
    have pm: "is_mat r b (P ws ! i ! n)" by (rule is_grid_slot[OF GP i' n])
    have d: "is_mat r b (mat_mul AbF s)" by (rule is_mat_mul[OF A s r])
    have "eadd (get2 (P ws) (int i) (int n)) (edot (Inr AbF) (Inr s))
        = Inr (mat_add (P ws ! i ! n) (mat_mul AbF s))"
      by (simp only: get2_at[OF GP i' n] edot_Inr np_dot_ok[OF A s r] eadd_Inr
            np_add_same[OF pm d r])
    then show "eadd (get2 (P ws) (int i) (int n)) (edot (Inr AbF) (Inr s))
        = Inr (mat_add (P ws ! i ! n) (mat_mul AbF s)) \<and>
        is_mat r b (mat_add (P ws ! i ! n) (mat_mul AbF s))"
      using is_mat_add[OF pm d] by simp
  qed
  then show "pe_PM1Y Zrb AbF M n ws =
           Inr (foldl (\<lambda>PM1Y m. mat_add (P ws ! m ! n) (mat_mul AbF PM1Y)) Zrb [0..<M])"
    and "is_mat r b (foldl (\<lambda>PM1Y m. mat_add (P ws ! m ! n) (mat_mul AbF PM1Y)) Zrb [0..<M])"
    by (simp_all add: pe_PM1Y_def)
qed

lemma pe_E0Z_ok:
  fixes ws :: "'a::comm_ring_1 workspace"
  assumes GP: "is_grid (Suc M) N r b (P ws)" and GE: "is_grid (Suc M) N r b (E ws)"
    and A: "is_mat r r AbR" and HA: "is_mat r r HARB_AFP" and r: "0 < r"
    and n: "n < N" and Z: "is_mat r b Zrb"
  shows "\<exists>V. pe_E0Z Zrb AbR HARB_AFP M n ws = Inr V \<and> is_mat r b V"
proof -
  let ?g = "\<lambda>m E0Z. mat_add (mat_add (E ws ! m ! n)
              (mat_mul HARB_AFP (P ws ! (if m = 0 then M else m - 1) ! n))) (mat_mul AbR E0Z)"
  have "efold (\<lambda>m E0Z. eadd (eadd (get2 (E ws) (int m) (int n))
                            (edot (Inr HARB_AFP) (get2 (P ws) (int m - 1) (int n))))
                         (edot (Inr AbR) (Inr E0Z))) (rev [0..<M]) Zrb
      = Inr (foldl (\<lambda>s i. ?g i s) Zrb (rev [0..<M]))
      \<and> is_mat r b (foldl (\<lambda>s i. ?g i s) Zrb (rev [0..<M]))"
  proof (rule efold_pure[where Q = "is_mat r b" and g = ?g])
    show "is_mat r b Zrb" by (rule Z)
  next
    fix i and s :: "'a mat" assume i: "i \<in> set (rev [0..<M])" and s: "is_mat r b s"
    have i': "i < Suc M" and i'': "i < M" using i by simp_all
    let ?prev = "P ws ! (if i = 0 then M else i - 1) ! n"
    have em: "is_mat r b (E ws ! i ! n)" by (rule is_grid_slot[OF GE i' n])
    have pp: "is_mat r b ?prev" by (rule is_grid_slot[OF GP _ n]) (use i'' in auto)
    have d1: "is_mat r b (mat_mul HARB_AFP ?prev)" by (rule is_mat_mul[OF HA pp r])
    have d2: "is_mat r b (mat_mul AbR s)" by (rule is_mat_mul[OF A s r])
    have s1: "is_mat r b (mat_add (E ws ! i ! n) (mat_mul HARB_AFP ?prev))"
      by (rule is_mat_add[OF em d1])
    have "eadd (eadd (get2 (E ws) (int i) (int n))
                            (edot (Inr HARB_AFP) (get2 (P ws) (int i - 1) (int n))))
                         (edot (Inr AbR) (Inr s)) = Inr (?g i s)"
      by (simp only: get2_at[OF GE i' n] get2_before[OF GP i'' n] edot_Inr
            np_dot_ok[OF HA pp r] np_dot_ok[OF A s r] eadd_Inr np_add_same[OF em d1 r]
            np_add_same[OF s1 d2 r])
    then show "eadd (eadd (get2 (E ws) (int i) (int n))
                            (edot (Inr HARB_AFP) (get2 (P ws) (int i - 1) (int n))))
                         (edot (Inr AbR) (Inr s)) = Inr (?g i s) \<and> is_mat r b (?g i s)"
      using is_mat_add[OF s1 d2] by simp
  qed
  then show ?thesis unfolding pe_E0Z_def by blast
qed

lemma set2_boundary:
  assumes G: "is_grid (Suc M) N h w G" and n: "n < N" and V: "is_mat h w V" and h: "0 < h"
  shows "set2 G (- 1) (int n) V = Inr (G[M := (G ! M)[n := V]])"
proof -
  have "G \<noteq> []" "length G - 1 = M" using is_grid_length[OF G] by auto
  moreover have "n < length (G ! M)" using is_grid_row[OF G, of M] n by simp
  moreover have "is_mat h w (G ! M ! n)" by (rule is_grid_slot[OF G _ n]) simp
  ultimately show ?thesis using set2_last[of G n h w V] V h by simp
qed

lemma stage2_column_rec:
  fixes ws0 :: "'a::comm_ring_1 workspace"
  assumes G: "is_grid (Suc M) N r b (P ws0)" and A: "is_mat r r AbF" and r: "0 < r"
    and n: "n < N"
  shows "\<exists>ws'. for_each [0..<M] (stage2_step AbF n) ws0 = (None, ws') \<and>
           is_grid (Suc M) N r b (P ws') \<and>
           (\<forall>m' n'. m' \<le> M \<and> n' < N \<and> (n' \<noteq> n \<or> m' = M) \<longrightarrow> P ws' ! m' ! n' = P ws0 ! m' ! n') \<and>
           (\<forall>m<M. P ws' ! m ! n =
              mat_add (P ws0 ! m ! n) (mat_mul AbF (P ws' ! (if m = 0 then M else m - 1) ! n)))"
proof -
  define I where "I m ws \<longleftrightarrow> is_grid (Suc M) N r b (P ws) \<and>
      (\<forall>m' n'. m' \<le> M \<and> n' < N \<and> (n' \<noteq> n \<or> m \<le> m') \<longrightarrow> P ws ! m' ! n' = P ws0 ! m' ! n') \<and>
      (\<forall>m'<m. P ws ! m' ! n =
         mat_add (P ws0 ! m' ! n) (mat_mul AbF (P ws ! (if m' = 0 then M else m' - 1) ! n)))"
    for m and ws :: "'a workspace"
  have step: "\<exists>ws'. stage2_step AbF n m ws = (None, ws') \<and> I (Suc m) ws'"
    if m: "m < M" and inv: "I m ws" for m ws
  proof -
    have g: "is_grid (Suc M) N r b (P ws)" using inv by (simp add: I_def)
    have same: "P ws ! m' ! n' = P ws0 ! m' ! n'" if "m' \<le> M" "n' < N" "n' \<noteq> n \<or> m \<le> m'" for m' n'
      using inv that by (simp add: I_def)
    have dn: "P ws ! m' ! n =
         mat_add (P ws0 ! m' ! n) (mat_mul AbF (P ws ! (if m' = 0 then M else m' - 1) ! n))"
      if "m' < m" for m'
      using inv that by (simp add: I_def)
    let ?V = "mat_add (P ws ! m ! n) (mat_mul AbF (P ws ! (if m = 0 then M else m - 1) ! n))"
    let ?G = "(P ws)[m := (P ws ! m)[n := ?V]]"
    have Vm: "is_mat r b ?V"
      by (intro is_mat_add is_mat_mul[OF A _ r] is_grid_slot[OF g _ n]) (use m in auto)
    have l: "m < length (P ws)" "n < length (P ws ! m)"
      using is_grid_length[OF g] is_grid_row[OF g, of m] m n by simp_all
    have nth: "?G ! m' ! n' = (if m' = m \<and> n' = n then ?V else P ws ! m' ! n')" for m' n'
      by (rule grid_update_nth[OF l])
    have other: "?G ! m' ! n' = P ws ! m' ! n'" if "\<not> (m' = m \<and> n' = n)" for m' n'
      unfolding nth using that by (simp only: if_False)
    have 1: "is_grid (Suc M) N r b ?G" by (rule is_grid_update[OF g Vm])
    have 2: "?G ! m' ! n' = P ws0 ! m' ! n'" if "m' \<le> M" "n' < N" "n' \<noteq> n \<or> Suc m \<le> m'" for m' n'
    proof -
      have "\<not> (m' = m \<and> n' = n)" using that(3) by auto
      then have "?G ! m' ! n' = P ws ! m' ! n'" by (rule other)
      moreover have "P ws ! m' ! n' = P ws0 ! m' ! n'" by (rule same) (use that in auto)
      ultimately show ?thesis by simp
    qed
    have 3: "?G ! m' ! n =
         mat_add (P ws0 ! m' ! n) (mat_mul AbF (?G ! (if m' = 0 then M else m' - 1) ! n))"
      if "m' < Suc m" for m'
    proof -
      have prev: "?G ! (if m' = 0 then M else m' - 1) ! n = P ws ! (if m' = 0 then M else m' - 1) ! n"
        by (rule other) (use that m in auto)
      show ?thesis
      proof (cases "m' = m")
        case True
        have "P ws ! m ! n = P ws0 ! m ! n" by (rule same) (use m n in simp_all)
        then show ?thesis unfolding prev unfolding nth True by simp
      next
        case False
        then have lt: "m' < m" using that by simp
        have "?G ! m' ! n = P ws ! m' ! n" by (rule other) (use False in simp)
        then show ?thesis unfolding prev using dn[OF lt] by simp
      qed
    qed
    have "I (Suc m) (ws\<lparr>P := ?G\<rparr>)"
      unfolding I_def using 1 2 3 by simp
    then show ?thesis using stage2_step_ok[OF g A r m n] by simp
  qed
  have "\<exists>ws'. for_each [0..<M] (stage2_step AbF n) ws0 = (None, ws') \<and> I M ws'"
  proof (rule for_each_upt_inv[where I = I])
    show "I 0 ws0" using G by (simp add: I_def)
  next
    fix i ws assume "i < M" "I i ws"
    then show "\<exists>ws'. stage2_step AbF n i ws = (None, ws') \<and> I (Suc i) ws'" by (rule step)
  qed
  then obtain ws' where ws': "for_each [0..<M] (stage2_step AbF n) ws0 = (None, ws')" "I M ws'"
    by blast
  have "\<forall>m' n'. m' \<le> M \<and> n' < N \<and> (n' \<noteq> n \<or> m' = M) \<longrightarrow> P ws' ! m' ! n' = P ws0 ! m' ! n'"
    using ws'(2) unfolding I_def by auto
  then show ?thesis using ws' unfolding I_def by blast
qed


lemma assign_P_boundary:
  assumes G: "is_grid (Suc M) N r b (P ws)" and n: "n < N" and V: "is_mat r b V" and r: "0 < r"
  shows "assign_P (- 1) (int n) V ws = (None, ws\<lparr>P := (P ws)[M := (P ws ! M)[n := V]]\<rparr>)"
  by (rule assign_P_ok[OF set2_boundary[OF G n V r]])

lemma pe_column:
  fixes ws :: "'a::comm_ring_1 workspace"
  assumes GP: "is_grid (Suc M) N r b (P ws)" and GE: "is_grid (Suc M) N r b (E ws)"
    and r: "0 < r" and n: "n < N" and Z: "is_mat r b Zrb"
    and A: "is_mat r r AbF" and B: "is_mat r r AbR" and C: "is_mat r r HARB_AFP"
    and IF: "is_mat r r IAhF" and IR: "is_mat r r IAhR"
  shows "\<exists>ws'. seq (eval (\<lambda>ws. edot (Inr IAhF) (pe_PM1Y Zrb AbF M n ws)) (assign_P (- 1) (int n)))
              (seq (for_each [0..<M] (stage2_step AbF n))
              (seq (eval (\<lambda>ws. edot (Inr IAhR) (pe_E0Z Zrb AbR HARB_AFP M n ws))
                      (assign_E (int M) (int n)))
                   (for_each (rev [0..<M]) (stage3_step AbR HARB_AFP n)))) ws = (None, ws') \<and>
           is_grid (Suc M) N r b (P ws') \<and> is_grid (Suc M) N r b (E ws') \<and>
           (\<forall>m' n'. m' \<le> M \<and> n' < N \<and> n' \<noteq> n \<longrightarrow> P ws' ! m' ! n' = P ws ! m' ! n') \<and>
           P ws' ! M ! n = mat_mul IAhF
              (foldl (\<lambda>PM1Y m. mat_add (P ws ! m ! n) (mat_mul AbF PM1Y)) Zrb [0..<M]) \<and>
           (\<forall>m<M. P ws' ! m ! n =
              mat_add (P ws ! m ! n) (mat_mul AbF (P ws' ! (if m = 0 then M else m - 1) ! n)))"
proof -
  let ?F = "foldl (\<lambda>PM1Y m. mat_add (P ws ! m ! n) (mat_mul AbF PM1Y)) Zrb [0..<M]"
  let ?V = "mat_mul IAhF ?F"
  let ?Ga = "(P ws)[M := (P ws ! M)[n := ?V]]"
  let ?wsa = "ws\<lparr>P := ?Ga\<rparr>"
  have Fm: "is_mat r b ?F" by (rule pe_PM1Y_ok(2)[OF GP A r n Z])
  have Vm: "is_mat r b ?V" by (rule is_mat_mul[OF IF Fm r])
  have ea: "edot (Inr IAhF) (pe_PM1Y Zrb AbF M n ws) = Inr ?V"
    by (simp only: pe_PM1Y_ok(1)[OF GP A r n Z] edot_Inr np_dot_ok[OF IF Fm r])
  have a: "eval (\<lambda>ws. edot (Inr IAhF) (pe_PM1Y Zrb AbF M n ws)) (assign_P (- 1) (int n)) ws
        = (None, ?wsa)"
    unfolding eval_def ea by (simp add: assign_P_boundary[OF GP n Vm r])
  have l: "M < length (P ws)" "n < length (P ws ! M)"
    using is_grid_length[OF GP] is_grid_row[OF GP, of M] n by simp_all
  have ntha: "?Ga ! m' ! n' = (if m' = M \<and> n' = n then ?V else P ws ! m' ! n')" for m' n'
    by (rule grid_update_nth[OF l])
  have GPa: "is_grid (Suc M) N r b (P ?wsa)" using is_grid_update[OF GP Vm, of M n] by simp
  from stage2_column_rec[OF GPa A r n]
  obtain wsb where b: "for_each [0..<M] (stage2_step AbF n) ?wsa = (None, wsb)"
    and GPb: "is_grid (Suc M) N r b (P wsb)"
    and sameb: "\<forall>m' n'. m' \<le> M \<and> n' < N \<and> (n' \<noteq> n \<or> m' = M) \<longrightarrow> P wsb ! m' ! n' = P ?wsa ! m' ! n'"
    and recb: "\<forall>m<M. P wsb ! m ! n =
              mat_add (P ?wsa ! m ! n) (mat_mul AbF (P wsb ! (if m = 0 then M else m - 1) ! n))"
    by blast
  have Eb: "E wsb = E ws"
    using for_each_keeps[of E "stage2_step AbF n" "[0..<M]" ?wsa, OF stage2_step_keeps(1)] b
    by simp
  have GEb: "is_grid (Suc M) N r b (E wsb)" using GE Eb by simp
  from pe_E0Z_ok[OF GPb GEb B C r n Z]
  obtain W where W: "pe_E0Z Zrb AbR HARB_AFP M n wsb = Inr W" "is_mat r b W" by blast
  let ?W = "mat_mul IAhR W"
  have Wm: "is_mat r b ?W" by (rule is_mat_mul[OF IR W(2) r])
  let ?wsc = "wsb\<lparr>E := (E wsb)[M := (E wsb ! M)[n := ?W]]\<rparr>"
  have ec: "edot (Inr IAhR) (pe_E0Z Zrb AbR HARB_AFP M n wsb) = Inr ?W"
    by (simp only: W(1) edot_Inr np_dot_ok[OF IR W(2) r])
  have c: "eval (\<lambda>ws. edot (Inr IAhR) (pe_E0Z Zrb AbR HARB_AFP M n ws)) (assign_E (int M) (int n)) wsb
        = (None, ?wsc)"
    unfolding eval_def ec by (simp add: assign_E_ok[OF set2_at[OF GEb _ n Wm r]])
  have GPc: "is_grid (Suc M) N r b (P ?wsc)" using GPb by simp
  have GEc: "is_grid (Suc M) N r b (E ?wsc)" using is_grid_update[OF GEb Wm, of M n] by simp
  from stage3_column[OF GPc GEc B C r n]
  obtain wsd where d: "for_each (rev [0..<M]) (stage3_step AbR HARB_AFP n) ?wsc = (None, wsd)"
    and Pd: "P wsd = P wsb" and GEd: "is_grid (Suc M) N r b (E wsd)"
    by auto
  have run: "seq (eval (\<lambda>ws. edot (Inr IAhF) (pe_PM1Y Zrb AbF M n ws)) (assign_P (- 1) (int n)))
              (seq (for_each [0..<M] (stage2_step AbF n))
              (seq (eval (\<lambda>ws. edot (Inr IAhR) (pe_E0Z Zrb AbR HARB_AFP M n ws))
                      (assign_E (int M) (int n)))
                   (for_each (rev [0..<M]) (stage3_step AbR HARB_AFP n)))) ws = (None, wsd)"
    unfolding seq_def a prod.case option.case b c d ..
  have 1: "P wsd ! m' ! n' = P ws ! m' ! n'" if "m' \<le> M" "n' < N" "n' \<noteq> n" for m' n'
  proof -
    have "P wsb ! m' ! n' = P ?wsa ! m' ! n'" using sameb that by simp
    also have "\<dots> = P ws ! m' ! n'" using ntha[of m' n'] that by simp
    finally show ?thesis by (simp add: Pd)
  qed
  have 2: "P wsd ! M ! n = ?V"
  proof -
    have "P wsb ! M ! n = P ?wsa ! M ! n" using sameb n by simp
    then show ?thesis using ntha[of M n] by (simp add: Pd)
  qed
  have 3: "P wsd ! m ! n = mat_add (P ws ! m ! n) (mat_mul AbF (P wsd ! (if m = 0 then M else m - 1) ! n))"
    if "m < M" for m
  proof -
    have "P ?wsa ! m ! n = P ws ! m ! n" using ntha[of m n] that by simp
    then show ?thesis using recb that by (simp add: Pd)
  qed
  show ?thesis using run GPb GEd 1 2 3 unfolding Pd[symmetric] by blast
qed


lemma alg5_pe_stage23_columns:
  fixes ws0 :: "'a::comm_ring_1 workspace"
  assumes GP: "is_grid (Suc M) N r b (P ws0)" and GE: "is_grid (Suc M) N r b (E ws0)"
    and r: "0 < r" and Z: "is_mat r b Zrb"
    and A: "is_mat r r AbF" and B: "is_mat r r AbR" and C: "is_mat r r HARB_AFP"
    and IF: "is_mat r r IAhF" and IR: "is_mat r r IAhR"
  shows "\<exists>ws'. for_each [0..<N] (\<lambda>n.
               seq (eval (\<lambda>ws. edot (Inr IAhF) (pe_PM1Y Zrb AbF M n ws)) (assign_P (- 1) (int n)))
              (seq (for_each [0..<M] (stage2_step AbF n))
              (seq (eval (\<lambda>ws. edot (Inr IAhR) (pe_E0Z Zrb AbR HARB_AFP M n ws))
                      (assign_E (int M) (int n)))
                   (for_each (rev [0..<M]) (stage3_step AbR HARB_AFP n))))) ws0 = (None, ws') \<and>
           (\<forall>n<N. P ws' ! M ! n = mat_mul IAhF
                      (foldl (\<lambda>PM1Y m. mat_add (P ws0 ! m ! n) (mat_mul AbF PM1Y)) Zrb [0..<M]) \<and>
                   (\<forall>m<M. P ws' ! m ! n =
                      mat_add (P ws0 ! m ! n)
                        (mat_mul AbF (P ws' ! (if m = 0 then M else m - 1) ! n))))"
proof -
  let ?body = "\<lambda>n. seq (eval (\<lambda>ws. edot (Inr IAhF) (pe_PM1Y Zrb AbF M n ws)) (assign_P (- 1) (int n)))
              (seq (for_each [0..<M] (stage2_step AbF n))
              (seq (eval (\<lambda>ws. edot (Inr IAhR) (pe_E0Z Zrb AbR HARB_AFP M n ws))
                      (assign_E (int M) (int n)))
                   (for_each (rev [0..<M]) (stage3_step AbR HARB_AFP n))))"
  define fin where "fin n ws \<longleftrightarrow>
      P ws ! M ! n = mat_mul IAhF
         (foldl (\<lambda>PM1Y m. mat_add (P ws0 ! m ! n) (mat_mul AbF PM1Y)) Zrb [0..<M]) \<and>
      (\<forall>m<M. P ws ! m ! n =
         mat_add (P ws0 ! m ! n) (mat_mul AbF (P ws ! (if m = 0 then M else m - 1) ! n)))"
    for n and ws :: "'a workspace"
  define K where "K n ws \<longleftrightarrow> is_grid (Suc M) N r b (P ws) \<and> is_grid (Suc M) N r b (E ws) \<and>
      (\<forall>n'<n. fin n' ws) \<and>
      (\<forall>n' m'. n \<le> n' \<and> n' < N \<and> m' \<le> M \<longrightarrow> P ws ! m' ! n' = P ws0 ! m' ! n')"
    for n and ws :: "'a workspace"
  have fin_cong: "fin n' ws'" if "fin n' ws" "\<And>m'. m' \<le> M \<Longrightarrow> P ws' ! m' ! n' = P ws ! m' ! n'"
    for n' ws ws'
  proof -
    have "P ws' ! (if m = 0 then M else m - 1) ! n' = P ws ! (if m = 0 then M else m - 1) ! n'"
      if "m < M" for m
      by (rule \<open>\<And>m'. m' \<le> M \<Longrightarrow> P ws' ! m' ! n' = P ws ! m' ! n'\<close>) (use that in auto)
    then show ?thesis using that unfolding fin_def by simp
  qed
  have col: "\<exists>ws'. ?body n ws = (None, ws') \<and> K (Suc n) ws'" if n: "n < N" and inv: "K n ws" for n ws
  proof -
    have gp: "is_grid (Suc M) N r b (P ws)" and ge: "is_grid (Suc M) N r b (E ws)"
      using inv by (simp_all add: K_def)
    have same: "P ws ! m' ! n' = P ws0 ! m' ! n'" if "n \<le> n'" "n' < N" "m' \<le> M" for m' n'
      using inv that by (simp add: K_def)
    have dn: "fin n' ws" if "n' < n" for n'
      using inv that by (simp add: K_def)
    from pe_column[OF gp ge r n Z A B C IF IR]
    obtain ws' where ws': "?body n ws = (None, ws')"
      "is_grid (Suc M) N r b (P ws')" "is_grid (Suc M) N r b (E ws')"
      "\<forall>m' n'. m' \<le> M \<and> n' < N \<and> n' \<noteq> n \<longrightarrow> P ws' ! m' ! n' = P ws ! m' ! n'"
      "P ws' ! M ! n = mat_mul IAhF
              (foldl (\<lambda>PM1Y m. mat_add (P ws ! m ! n) (mat_mul AbF PM1Y)) Zrb [0..<M])"
      "\<forall>m<M. P ws' ! m ! n =
              mat_add (P ws ! m ! n) (mat_mul AbF (P ws' ! (if m = 0 then M else m - 1) ! n))"
      by blast
    have fold: "foldl (\<lambda>PM1Y m. mat_add (P ws ! m ! n) (mat_mul AbF PM1Y)) Zrb [0..<M]
        = foldl (\<lambda>PM1Y m. mat_add (P ws0 ! m ! n) (mat_mul AbF PM1Y)) Zrb [0..<M]"
      by (rule foldl_cong[OF refl refl]) (use same[of n] n in simp)
    have "fin n ws'"
      unfolding fin_def using ws'(5,6) fold same[of n] n by simp
    moreover have "fin n' ws'" if "n' < n" for n'
      by (rule fin_cong[OF dn[OF that]]) (use ws'(4) that n in simp)
    ultimately have 3: "\<forall>n'<Suc n. fin n' ws'" by (auto simp: less_Suc_eq)
    have 4: "P ws' ! m' ! n' = P ws0 ! m' ! n'" if "Suc n \<le> n'" "n' < N" "m' \<le> M" for m' n'
      using ws'(4) same[of n' m'] that by simp
    have "K (Suc n) ws'" unfolding K_def using ws'(2,3) 3 4 by simp
    then show ?thesis using ws'(1) by blast
  qed
  have "\<exists>ws'. for_each [0..<N] ?body ws0 = (None, ws') \<and> K N ws'"
  proof (rule for_each_upt_inv[where I = K])
    show "K 0 ws0" using GP GE by (simp add: K_def)
  next
    fix i ws assume "i < N" "K i ws"
    then show "\<exists>ws'. ?body i ws = (None, ws') \<and> K (Suc i) ws'" by (rule col)
  qed
  then show ?thesis unfolding K_def fin_def by blast
qed

lemma eval_const_ok: "c = Inr v \<Longrightarrow> eval (\<lambda>ws. c) k ws = k v ws"
  by (simp add: eval_def)

lemma build_alg5_matrices_pack:
  assumes "build_alg5_matrices b r wgt width height = Inr ms"
  shows "length ms = 25" "ms ! 0 = np_zeros r b" "ms ! 2 = np_identity r" "ms ! 1 = np_zeros b r"
  using assms
  by (auto simp: build_alg5_matrices_def Let_def ebind_def split: sum.splits)

lemma take_drop_nths:
  "length xs = 25 \<Longrightarrow> take 3 (drop 6 xs) = [xs ! 6, xs ! 7, xs ! 8]"
  "length xs = 25 \<Longrightarrow> take 4 (drop 21 xs) = [xs ! 21, xs ! 22, xs ! 23, xs ! 24]"
  by (auto simp: list_eq_iff_nth_eq nth_Cons' numeral_eq_Suc less_Suc_eq)

lemma build_pe_matrices_pack:
  assumes "length ms = 25" "build_pe_matrices np_inv r wgt ms = Inr pe"
  shows "\<exists>D X. np_sub (ms ! 2) (ms ! 23) = Inr D \<and> np_inv D = Inr X \<and> pe ! 0 = np_transpose X"
    and "take 2 pe = [pe ! 0, pe ! 1]"
proof -
  have g: "py_get ms 2 = Inr (ms ! 2)" using assms(1) py_get_nat[of 2 ms] by simp
  from assms(2) show "\<exists>D X. np_sub (ms ! 2) (ms ! 23) = Inr D \<and> np_inv D = Inr X \<and> pe ! 0 = np_transpose X"
    unfolding build_pe_matrices_def g take_drop_nths(2)[OF assms(1)]
    by (auto simp: ebind_def Let_def split: sum.splits)
  from assms(2) show "take 2 pe = [pe ! 0, pe ! 1]"
    unfolding build_pe_matrices_def g take_drop_nths(2)[OF assms(1)]
    by (auto simp: ebind_def Let_def split: sum.splits)
qed

text \<open>
  C7: under the PE policy, for every column \<open>n\<close>, stages 2 and 3 first run the
  accumulator \<open>PM1Y\<close> from zero through \<open>PM1Y = P[m][n] + AbF * PM1Y\<close> for
  \<open>m = 0..M-1\<close>, then set the boundary slot \<open>P[-1][n]\<close> (row \<open>M\<close>) to
  \<open>IAhF * PM1Y\<close>, where \<open>IAhF\<close> is the transpose of what \<open>np.linalg.inv\<close> returns for
  \<open>I - AhF\<close>, as \<open>build_pe_matrices\<close> stores it, and then run the standard sweep
  \<open>P[m][n] += AbF * P[m-1][n]\<close> from that boundary.
\<close>

theorem alg5_pe_stage23_forward:
  fixes ws :: "'a::comm_ring_1 workspace"
  assumes "build_alg5_matrices b r wgt width height = Inr matrices"
    and "build_pe_matrices np_inv r wgt matrices = Inr pe"
    and "is_grid (Suc M) N r b (P ws)" and "is_grid (Suc M) N r b (E ws)" and "0 < r"
    and "is_mat r r (matrices ! 6)" and "is_mat r r (matrices ! 7)" and "is_mat r r (matrices ! 8)"
    and "is_mat r r (pe ! 0)" and "is_mat r r (pe ! 1)"
  shows "\<exists>D X ws'. np_sub (np_identity r) (matrices ! 23) = Inr D \<and> np_inv D = Inr X \<and>
           pe ! 0 = np_transpose X \<and>
           alg5_pe_stage23 M N matrices pe ws = (None, ws') \<and>
           (\<forall>n<N. P ws' ! M ! n =
                     mat_mul (pe ! 0) (pe_first_pass r b (matrices ! 6) (\<lambda>m. P ws ! m ! n) M) \<and>
                   (\<forall>m<M. P ws' ! m ! n =
                      mat_add (P ws ! m ! n)
                        (mat_mul (matrices ! 6) (P ws' ! (if m = 0 then M else m - 1) ! n))))"
proof -
  note pack = build_alg5_matrices_pack[OF assms(1)]
  from build_pe_matrices_pack(1)[OF pack(1) assms(2)]
  obtain D X where inv: "np_sub (np_identity r) (matrices ! 23) = Inr D" "np_inv D = Inr X"
    "pe ! 0 = np_transpose X"
    unfolding pack(3) by blast
  have Z: "is_mat r b (matrices ! 0)" unfolding pack(2) by (rule is_mat_zeros)
  have g: "py_get matrices 0 = Inr (matrices ! 0)" using pack(1) py_get_nat[of 0 matrices] by simp
  from alg5_pe_stage23_columns[OF assms(3,4,5) Z assms(6,7,8,9,10)]
  obtain ws' where ws': "for_each [0..<N] (\<lambda>n.
               seq (eval (\<lambda>ws. edot (Inr (pe ! 0)) (pe_PM1Y (matrices ! 0) (matrices ! 6) M n ws))
                      (assign_P (- 1) (int n)))
              (seq (for_each [0..<M] (stage2_step (matrices ! 6) n))
              (seq (eval (\<lambda>ws. edot (Inr (pe ! 1))
                             (pe_E0Z (matrices ! 0) (matrices ! 7) (matrices ! 8) M n ws))
                      (assign_E (int M) (int n)))
                   (for_each (rev [0..<M]) (stage3_step (matrices ! 7) (matrices ! 8) n))))) ws
               = (None, ws')"
    and res: "\<forall>n<N. P ws' ! M ! n = mat_mul (pe ! 0)
                      (foldl (\<lambda>PM1Y m. mat_add (P ws ! m ! n) (mat_mul (matrices ! 6) PM1Y))
                         (matrices ! 0) [0..<M]) \<and>
                   (\<forall>m<M. P ws' ! m ! n =
                      mat_add (P ws ! m ! n)
                        (mat_mul (matrices ! 6) (P ws' ! (if m = 0 then M else m - 1) ! n)))"
    by blast
  have run: "alg5_pe_stage23 M N matrices pe ws = (None, ws')"
    unfolding alg5_pe_stage23_def eval_const_ok[OF g] take_drop_nths(1)[OF pack(1)]
      build_pe_matrices_pack(2)[OF pack(1) assms(2)] list.case
    by (rule ws')
  show ?thesis
    using inv run res unfolding pe_first_pass_def pack(2) by blast
qed

theorem alg5_pe_stage23_forward_witness:
  "build_alg5_matrices 2 1 [3, 2::real] 2 2 = Inr
     [[[0, 0]], [[0], [0]], [[1]], [[1, 0], [0, 1]], [[- 2], [4]],
      [[3, 0], [- 6, 3]], [[4]], [[4]], [[- 30]], [[4]], [[4]], [[- 30]],
      [[45], [- 18]], [[- 30], [12]], [[- 6], [3]], [[4], [- 2]], [[1]],
      [[- 2]], [[- 2]], [[3]], [[3]], [[4]], [[4]], [[4]], [[4::real]]] \<and>
   build_pe_matrices inv_1x1 1 [3, 2::real]
     [[[0, 0]], [[0], [0]], [[1]], [[1, 0], [0, 1]], [[- 2], [4]],
      [[3, 0], [- 6, 3]], [[4]], [[4]], [[- 30]], [[4]], [[4]], [[- 30]],
      [[45], [- 18]], [[- 30], [12]], [[- 6], [3]], [[4], [- 2]], [[1]],
      [[- 2]], [[- 2]], [[3]], [[3]], [[4]], [[4]], [[4]], [[4::real]]]
     = Inr [[[- (1 / 3)]], [[- (1 / 3)]], [[- (1 / 3)]], [[- (1 / 3::real)]]] \<and>
   (\<exists>D X ws'. np_sub (np_identity 1)
       ([[[0, 0]], [[0], [0]], [[1]], [[1, 0], [0, 1]], [[- 2], [4]],
      [[3, 0], [- 6, 3]], [[4]], [[4]], [[- 30]], [[4]], [[4]], [[- 30]],
      [[45], [- 18]], [[- 30], [12]], [[- 6], [3]], [[4], [- 2]], [[1]],
      [[- 2]], [[- 2]], [[3]], [[3]], [[4]], [[4]], [[4]], [[4::real]]] ! 23) = Inr D \<and>
     inv_1x1 D = Inr X \<and>
     [[[- (1 / 3)]], [[- (1 / 3)]], [[- (1 / 3)]], [[- (1 / 3::real)]]] ! 0 = np_transpose X \<and>
     alg5_pe_stage23 1 1
       [[[0, 0]], [[0], [0]], [[1]], [[1, 0], [0, 1]], [[- 2], [4]],
      [[3, 0], [- 6, 3]], [[4]], [[4]], [[- 30]], [[4]], [[4]], [[- 30]],
      [[45], [- 18]], [[- 30], [12]], [[- 6], [3]], [[4], [- 2]], [[1]],
      [[- 2]], [[- 2]], [[3]], [[3]], [[4]], [[4]], [[4]], [[4::real]]]
       [[[- (1 / 3)]], [[- (1 / 3)]], [[- (1 / 3)]], [[- (1 / 3::real)]]]
       \<lparr>P = [[[[3, 0]]], [[[0, 0]]]], E = [[[[- 9, 18]]], [[[0, 0]]]],
        Pt = [[[[108], [- 54]], [[0], [0]]]], Et = [[[[- 729], [405]], [[0], [0]]]],
        blocks = [[[[1, 2], [3, 4::real]]]]\<rparr> = (None, ws') \<and>
     (\<forall>n<1. P ws' ! 1 ! n =
          mat_mul ([[[- (1 / 3)]], [[- (1 / 3)]], [[- (1 / 3)]], [[- (1 / 3::real)]]] ! 0)
            (pe_first_pass 1 2
              ([[[0, 0]], [[0], [0]], [[1]], [[1, 0], [0, 1]], [[- 2], [4]],
      [[3, 0], [- 6, 3]], [[4]], [[4]], [[- 30]], [[4]], [[4]], [[- 30]],
      [[45], [- 18]], [[- 30], [12]], [[- 6], [3]], [[4], [- 2]], [[1]],
      [[- 2]], [[- 2]], [[3]], [[3]], [[4]], [[4]], [[4]], [[4::real]]] ! 6)
              (\<lambda>m. P \<lparr>P = [[[[3, 0]]], [[[0, 0]]]], E = [[[[- 9, 18]]], [[[0, 0]]]],
        Pt = [[[[108], [- 54]], [[0], [0]]]], Et = [[[[- 729], [405]], [[0], [0]]]],
        blocks = [[[[1, 2], [3, 4::real]]]]\<rparr> ! m ! n) 1) \<and>
        (\<forall>m<1. P ws' ! m ! n =
           mat_add (P \<lparr>P = [[[[3, 0]]], [[[0, 0]]]], E = [[[[- 9, 18]]], [[[0, 0]]]],
        Pt = [[[[108], [- 54]], [[0], [0]]]], Et = [[[[- 729], [405]], [[0], [0]]]],
        blocks = [[[[1, 2], [3, 4::real]]]]\<rparr> ! m ! n)
             (mat_mul ([[[0, 0]], [[0], [0]], [[1]], [[1, 0], [0, 1]], [[- 2], [4]],
      [[3, 0], [- 6, 3]], [[4]], [[4]], [[- 30]], [[4]], [[4]], [[- 30]],
      [[45], [- 18]], [[- 30], [12]], [[- 6], [3]], [[4], [- 2]], [[1]],
      [[- 2]], [[- 2]], [[3]], [[3]], [[4]], [[4]], [[4]], [[4::real]]] ! 6)
                (P ws' ! (if m = 0 then 1 else m - 1) ! n)))))"
proof -
  let ?pack = "[[[0, 0]], [[0], [0]], [[1]], [[1, 0], [0, 1]], [[- 2], [4]],
      [[3, 0], [- 6, 3]], [[4]], [[4]], [[- 30]], [[4]], [[4]], [[- 30]],
      [[45], [- 18]], [[- 30], [12]], [[- 6], [3]], [[4], [- 2]], [[1]],
      [[- 2]], [[- 2]], [[3]], [[3]], [[4]], [[4]], [[4]], [[4::real]]]"
  let ?pe = "[[[- (1 / 3)]], [[- (1 / 3)]], [[- (1 / 3)]], [[- (1 / 3::real)]]]"
  let ?ws = "\<lparr>P = [[[[3, 0]]], [[[0, 0]]]], E = [[[[- 9, 18]]], [[[0, 0]]]],
        Pt = [[[[108], [- 54]], [[0], [0]]]], Et = [[[[- 729], [405]], [[0], [0]]]],
        blocks = [[[[1, 2], [3, 4::real]]]]\<rparr>"
  have h1: "build_alg5_matrices 2 1 [3, 2::real] 2 2 = Inr ?pack" by code_simp
  have h2: "build_pe_matrices inv_1x1 1 [3, 2::real] ?pack = Inr ?pe" by code_simp
  have sh: "is_grid (Suc 1) 1 1 2 (P ?ws)" "is_grid (Suc 1) 1 1 2 (E ?ws)" "(0::nat) < 1"
    "is_mat 1 1 (?pack ! 6)" "is_mat 1 1 (?pack ! 7)" "is_mat 1 1 (?pack ! 8)"
    "is_mat 1 1 (?pe ! 0)" "is_mat 1 1 (?pe ! 1)"
    by (simp_all add: is_grid_def is_mat_def)
  show ?thesis
    by (rule conjI[OF h1 conjI[OF h2 alg5_pe_stage23_forward[OF h1 h2 sh]]])
qed

section \<open>The sweeps return, and keep the shape\<close>

lemma fwd_ok:
  assumes "weig \<noteq> []" "length weig - 1 \<le> length prol"
  shows "\<exists>ys. fwd prol xs weig = Inr ys \<and> length ys = length xs"
  using fwd_rows_ok[OF assms, of "length xs" xs 0] unfolding fwd_def by auto

lemma rev_taps_ok:
  "\<forall>k\<in>set ks. k \<le> length epil \<Longrightarrow> j < length bloc \<Longrightarrow>
   \<exists>ys. rev_taps epil weig j ks bloc = Inr ys \<and> length ys = length bloc"
proof (induction ks arbitrary: bloc)
  case Nil
  then show ?case by simp
next
  case (Cons k ks)
  have k: "k \<le> length epil" using Cons.prems(1) by simp
  show ?case
  proof (cases "length bloc \<le> j + k")
    case True
    then have e: "int j + int k - int (length bloc) = int (j + k - length bloc)" by linarith
    have lt: "j + k - length bloc < length epil" using Cons.prems(2) k True by linarith
    have g: "py_get epil (int j + int k - int (length bloc))
        = Inr (epil ! (j + k - length bloc))"
      by (simp only: e py_get_nat[OF lt])
    let ?b = "bloc[j := bloc ! j - epil ! (j + k - length bloc) * weig ! k]"
    have "rev_taps epil weig j (k # ks) bloc = rev_taps epil weig j ks ?b"
      using True g by simp
    moreover have "\<exists>ys. rev_taps epil weig j ks ?b = Inr ys \<and> length ys = length ?b"
      by (rule Cons.IH) (use Cons.prems in simp_all)
    ultimately show ?thesis by simp
  next
    case False
    let ?b = "bloc[j := bloc ! j - bloc ! (j + k) * weig ! k]"
    have "rev_taps epil weig j (k # ks) bloc = rev_taps epil weig j ks ?b"
      using False by simp
    moreover have "\<exists>ys. rev_taps epil weig j ks ?b = Inr ys \<and> length ys = length ?b"
      by (rule Cons.IH) (use Cons.prems in simp_all)
    ultimately show ?thesis by simp
  qed
qed

lemma rev_rows_ok:
  assumes "weig \<noteq> []" "length weig - 1 \<le> length epil"
  shows "\<forall>j\<in>set js. j < length bloc \<Longrightarrow>
         \<exists>ys. rev_rows epil weig js bloc = Inr ys \<and> length ys = length bloc"
proof (induction js arbitrary: bloc)
  case Nil
  then show ?case by simp
next
  case (Cons j0 js)
  let ?j = "length bloc - 1 - j0"
  let ?b0 = "bloc[?j := bloc ! ?j * weig ! 0]"
  have "j0 < length bloc" using Cons.prems by simp
  then have j: "?j < length ?b0" by simp
  have ks: "\<forall>k\<in>set [1..<length weig]. k \<le> length epil" using assms(2) by auto
  from rev_taps_ok[OF ks j, of weig]
  obtain b1 where b1: "rev_taps epil weig ?j [1..<length weig] ?b0 = Inr b1"
    "length b1 = length bloc" by auto
  have g: "py_get weig 0 = Inr (weig ! 0)" using assms(1) py_get_nat[of 0 weig] by simp
  have "rev_rows epil weig (j0 # js) bloc = rev_rows epil weig js b1"
    using g b1(1) by (simp add: Let_def)
  moreover have "\<exists>ys. rev_rows epil weig js b1 = Inr ys \<and> length ys = length b1"
    by (rule Cons.IH) (use Cons.prems b1(2) in simp)
  ultimately show ?case using b1(2) by simp
qed

lemma rev_sweep_ok:
  assumes "weig \<noteq> []" "length weig - 1 \<le> length epil"
  shows "\<exists>ys. rev_sweep xs epil weig = Inr ys \<and> length ys = length xs"
  unfolding rev_sweep_def by (rule rev_rows_ok[OF assms]) simp

lemma FT_rows_ok:
  assumes w: "weig \<noteq> []" "length weig - 1 \<le> p" and Prol: "is_mat h p Prol"
  shows "\<forall>row\<in>set rows. row < h \<Longrightarrow> is_mat h c FTB \<Longrightarrow>
         \<exists>X. FT_rows Prol weig rows FTB = Inr X \<and> is_mat h c X"
proof (induction rows arbitrary: FTB)
  case Nil
  then show ?case by simp
next
  case (Cons row rows)
  have row: "row < h" using Cons.prems(1) by simp
  have g: "py_get Prol (int row) = Inr (Prol ! row)"
    using py_get_nat[of row Prol] is_mat_length[OF Prol] row by simp
  have "length weig - 1 \<le> length (Prol ! row)" using is_mat_row[OF Prol row] w(2) by simp
  from fwd_ok[OF w(1) this, of "FTB ! row"]
  obtain ys where ys: "fwd (Prol ! row) (FTB ! row) weig = Inr ys" "length ys = length (FTB ! row)"
    by auto
  have m: "is_mat h c (FTB[row := ys])"
  proof (rule is_matI)
    show "length (FTB[row := ys]) = h" using is_mat_length[OF Cons.prems(2)] by simp
  next
    fix i assume "i < h"
    then show "length (FTB[row := ys] ! i) = c"
      using is_mat_row[OF Cons.prems(2), of i] is_mat_length[OF Cons.prems(2)] ys(2)
      by (cases "i = row") simp_all
  qed
  have "FT_rows Prol weig (row # rows) FTB = FT_rows Prol weig rows (FTB[row := ys])"
    using g ys(1) by simp
  moreover have "\<exists>X. FT_rows Prol weig rows (FTB[row := ys]) = Inr X \<and> is_mat h c X"
    by (rule Cons.IH[OF _ m]) (use Cons.prems(1) in simp)
  ultimately show ?case by simp
qed

lemma FT_ok:
  assumes "weig \<noteq> []" "length weig - 1 \<le> p" "is_mat h p Prol" "is_mat h c Bloc"
  shows "\<exists>X. FT Prol Bloc weig = Inr X \<and> is_mat h c X"
  unfolding FT_def
  by (rule FT_rows_ok[OF assms(1,2,3) _ assms(4)]) (use is_mat_length[OF assms(4)] in simp)

lemma RT_rows_ok:
  assumes w: "weig \<noteq> []" "length weig - 1 \<le> p" and Epil: "is_mat h p Epil"
  shows "\<forall>row\<in>set rows. row < h \<Longrightarrow> is_mat h c RTB \<Longrightarrow>
         \<exists>X. RT_rows Epil weig rows RTB = Inr X \<and> is_mat h c X"
proof (induction rows arbitrary: RTB)
  case Nil
  then show ?case by simp
next
  case (Cons row rows)
  have row: "row < h" using Cons.prems(1) by simp
  have g: "py_get Epil (int row) = Inr (Epil ! row)"
    using py_get_nat[of row Epil] is_mat_length[OF Epil] row by simp
  have "length weig - 1 \<le> length (Epil ! row)" using is_mat_row[OF Epil row] w(2) by simp
  from rev_sweep_ok[OF w(1) this, of "RTB ! row"]
  obtain ys where ys: "rev_sweep (RTB ! row) (Epil ! row) weig = Inr ys"
    "length ys = length (RTB ! row)"
    by auto
  have m: "is_mat h c (RTB[row := ys])"
  proof (rule is_matI)
    show "length (RTB[row := ys]) = h" using is_mat_length[OF Cons.prems(2)] by simp
  next
    fix i assume "i < h"
    then show "length (RTB[row := ys] ! i) = c"
      using is_mat_row[OF Cons.prems(2), of i] is_mat_length[OF Cons.prems(2)] ys(2)
      by (cases "i = row") simp_all
  qed
  have "RT_rows Epil weig (row # rows) RTB = RT_rows Epil weig rows (RTB[row := ys])"
    using g ys(1) by simp
  moreover have "\<exists>X. RT_rows Epil weig rows (RTB[row := ys]) = Inr X \<and> is_mat h c X"
    by (rule Cons.IH[OF _ m]) (use Cons.prems(1) in simp)
  ultimately show ?case by simp
qed

lemma RT_ok:
  assumes "weig \<noteq> []" "length weig - 1 \<le> p" "is_mat h p Epil" "is_mat h c Bloc"
  shows "\<exists>X. RT Bloc Epil weig = Inr X \<and> is_mat h c X"
  unfolding RT_def
  by (rule RT_rows_ok[OF assms(1,2,3) _ assms(4)]) (use is_mat_length[OF assms(4)] in simp)

lemma is_mat_transpose:
  assumes "is_mat h w A" "0 < h"
  shows "is_mat w h (np_transpose A)"
  unfolding np_transpose_def is_mat_ncols[OF assms]
  by (rule is_matI) (simp_all add: is_mat_length[OF assms(1)])

lemma F_ok:
  assumes "weig \<noteq> []" "length weig - 1 \<le> p" "is_mat p c Prol" "is_mat h c Bloc"
    "0 < p" "0 < h" "0 < c"
  shows "\<exists>X. F Prol Bloc weig = Inr X \<and> is_mat h c X"
proof -
  from FT_ok[OF assms(1,2) is_mat_transpose[OF assms(3,5)] is_mat_transpose[OF assms(4,6)]]
  obtain Y where Y: "FT (np_transpose Prol) (np_transpose Bloc) weig = Inr Y" "is_mat c h Y"
    by auto
  show ?thesis unfolding F_def using Y(1) is_mat_transpose[OF Y(2) assms(7)] by simp
qed

lemma R_ok:
  assumes "weig \<noteq> []" "length weig - 1 \<le> p" "is_mat p c Epil" "is_mat h c Bloc"
    "0 < p" "0 < h" "0 < c"
  shows "\<exists>X. R Bloc Epil weig = Inr X \<and> is_mat h c X"
proof -
  from RT_ok[OF assms(1,2) is_mat_transpose[OF assms(3,5)] is_mat_transpose[OF assms(4,6)]]
  obtain Y where Y: "RT (np_transpose Bloc) (np_transpose Epil) weig = Inr Y" "is_mat c h Y"
    by auto
  show ?thesis unfolding R_def using Y(1) is_mat_transpose[OF Y(2) assms(7)] by simp
qed

lemma is_mat_H:
  assumes "is_mat h w X" "r \<le> h"
  shows "is_mat r w (H X r)"
  unfolding H_def
proof (rule is_matI)
  show "length (take r X) = r" using is_mat_length[OF assms(1)] assms(2) by simp
next
  fix i assume "i < r"
  then show "length (take r X ! i) = w" using is_mat_row[OF assms(1), of i] assms(2) by simp
qed

lemma is_mat_T:
  assumes "is_mat h w X" "r \<le> h" "0 < r"
  shows "is_mat r w (T X r)"
proof -
  have "is_mat r w (drop (h - r) X)"
  proof (rule is_matI)
    show "length (drop (h - r) X) = r" using is_mat_length[OF assms(1)] assms(2) by simp
  next
    fix i assume "i < r"
    then show "length (drop (h - r) X ! i) = w"
      using is_mat_row[OF assms(1), of "h - r + i"] is_mat_length[OF assms(1)] assms(2) by simp
  qed
  then show ?thesis using assms(3) is_mat_length[OF assms(1)] by (simp add: T_def)
qed

lemma is_mat_HT:
  assumes "is_mat h w X" "r \<le> w"
  shows "is_mat h r (HT X r)"
  unfolding HT_def
proof (rule is_matI)
  show "length (map (take r) X) = h" using is_mat_length[OF assms(1)] by simp
next
  fix i assume "i < h"
  then show "length (map (take r) X ! i) = r"
    using is_mat_row[OF assms(1), of i] is_mat_length[OF assms(1)] assms(2) by simp
qed

lemma is_mat_TT:
  assumes "is_mat h w X" "r \<le> w" "0 < r"
  shows "is_mat h r (TT X r)"
  unfolding TT_def
proof (rule is_matI)
  show "length (map (\<lambda>row. if r = 0 then row else drop (length row - r) row) X) = h"
    using is_mat_length[OF assms(1)] by simp
next
  fix i assume "i < h"
  then show "length (map (\<lambda>row. if r = 0 then row else drop (length row - r) row) X ! i) = r"
    using is_mat_row[OF assms(1), of i] is_mat_length[OF assms(1)] assms(2,3) by simp
qed

section \<open>Stage 1, block by block\<close>

lemma block_carries_ok:
  assumes B: "is_mat b b B" and Zrb: "is_mat r b Zrb" and Zbr: "is_mat b r Zbr"
    and r: "0 < r" "r \<le> b" and w: "length wgt = Suc r"
  shows "\<exists>p e pt et. block_carries r wgt Zrb Zbr B = Inr (p, e, pt, et) \<and>
           is_mat r b p \<and> is_mat r b e \<and> is_mat b r pt \<and> is_mat b r et"
proof -
  have w1: "wgt \<noteq> []" and w2: "length wgt - 1 \<le> r" using w by auto
  have b: "0 < b" using r by simp
  from F_ok[OF w1 w2 Zrb B r(1) b b] obtain B1 where
    B1: "F Zrb B wgt = Inr B1" "is_mat b b B1" by auto
  from R_ok[OF w1 w2 Zrb B1(2) r(1) b b] obtain B2 where
    B2: "R B1 Zrb wgt = Inr B2" "is_mat b b B2" by auto
  from FT_ok[OF w1 w2 Zbr B2(2)] obtain B3 where
    B3: "FT Zbr B2 wgt = Inr B3" "is_mat b b B3" by auto
  from RT_ok[OF w1 w2 Zbr B3(2)] obtain B4 where
    B4: "RT B3 Zbr wgt = Inr B4" "is_mat b b B4" by auto
  have "block_carries r wgt Zrb Zbr B = Inr (T B1 r, H B2 r, TT B3 r, HT B4 r)"
    by (simp add: block_carries_def B1(1) B2(1) B3(1) B4(1))
  then show ?thesis
    using is_mat_T[OF B1(2) r(2,1)] is_mat_H[OF B2(2) r(2)] is_mat_TT[OF B3(2) r(2,1)]
      is_mat_HT[OF B4(2) r(2)]
    by blast
qed

lemma assign_Pt_ok: "set2 (Pt ws) m n V = Inr G \<Longrightarrow> assign_Pt m n V ws = (None, ws\<lparr>Pt := G\<rparr>)"
  by (simp add: assign_Pt_def eval_def)

lemma assign_Et_ok: "set2 (Et ws) m n V = Inr G \<Longrightarrow> assign_Et m n V ws = (None, ws\<lparr>Et := G\<rparr>)"
  by (simp add: assign_Et_def eval_def)

lemma stage1_block_effect:
  fixes ws :: "'a::comm_ring_1 workspace"
  assumes GP: "is_grid Mp N r b (P ws)" and GE: "is_grid Mp N r b (E ws)"
    and GPt: "is_grid M Np b r (Pt ws)" and GEt: "is_grid M Np b r (Et ws)"
    and GB: "is_grid M N b b (blocks ws)"
    and m: "m < M" "m < Mp" and n: "n < N" "n < Np" and r: "0 < r" and b: "0 < b"
    and c: "block_carries r wgt Zrb Zbr (blocks ws ! m ! n) = Inr (p, e, pt, et)"
    and sh: "is_mat r b p" "is_mat r b e" "is_mat b r pt" "is_mat b r et"
  shows "stage1_block r wgt Zrb Zbr n m ws =
     (None, ws\<lparr>P := (P ws)[m := (P ws ! m)[n := p]], E := (E ws)[m := (E ws ! m)[n := e]],
              Pt := (Pt ws)[m := (Pt ws ! m)[n := pt]], Et := (Et ws)[m := (Et ws ! m)[n := et]]\<rparr>)"
proof -
  let ?B = "blocks ws ! m ! n"
  from c obtain B1 B2 B3 B4 where
    B1: "F Zrb ?B wgt = Inr B1" and B2: "R B1 Zrb wgt = Inr B2"
    and B3: "FT Zbr B2 wgt = Inr B3" and B4: "RT B3 Zbr wgt = Inr B4"
    and v: "p = T B1 r" "e = H B2 r" "pt = TT B3 r" "et = HT B4 r"
    unfolding block_carries_def ebind_def by (auto split: sum.splits)
  let ?ws1 = "ws\<lparr>P := (P ws)[m := (P ws ! m)[n := p]]\<rparr>"
  let ?ws2 = "?ws1\<lparr>E := (E ws)[m := (E ws ! m)[n := e]]\<rparr>"
  let ?ws3 = "?ws2\<lparr>Pt := (Pt ws)[m := (Pt ws ! m)[n := pt]]\<rparr>"
  let ?ws4 = "?ws3\<lparr>Et := (Et ws)[m := (Et ws ! m)[n := et]]\<rparr>"
  have g: "get2 (blocks ws) (int m) (int n) = Inr ?B" by (rule get2_at[OF GB m(1) n(1)])
  have a1: "assign_P (int m) (int n) (T B1 r) ws = (None, ?ws1)"
    using assign_P_ok[OF set2_at[OF GP m(2) n(1) sh(1) r]] v(1) by simp
  have a2: "assign_E (int m) (int n) (H B2 r) ?ws1 = (None, ?ws2)"
    using assign_E_ok[of ?ws1, OF set2_at[of Mp N r b "E ?ws1" m n e]] GE m(2) n(1) sh(2) r v(2)
    by simp
  have a3: "assign_Pt (int m) (int n) (TT B3 r) ?ws2 = (None, ?ws3)"
    using assign_Pt_ok[of ?ws2, OF set2_at[of M Np b r "Pt ?ws2" m n pt]] GPt m(1) n(2) sh(3) b v(3)
    by simp
  have a4: "assign_Et (int m) (int n) (HT B4 r) ?ws3 = (None, ?ws4)"
    using assign_Et_ok[of ?ws3, OF set2_at[of M Np b r "Et ?ws3" m n et]] GEt m(1) n(2) sh(4) b v(4)
    by simp
  have "stage1_block r wgt Zrb Zbr n m ws = (None, ?ws4)"
    unfolding stage1_block_def eval_def g sum.case B1 B2 B3 B4 seq_def a1 a2 a3 a4 prod.case
      option.case ..
  then show ?thesis by simp
qed

lemma fill_empty: "fill G f {} = G"
  unfolding fill_def by (simp add: map_nth)

lemma fill_nth:
  "m < length G \<Longrightarrow> n < length (G ! m) \<Longrightarrow>
   fill G f S ! m ! n = (if (m, n) \<in> S then f m n else G ! m ! n)"
  by (simp add: fill_def)

lemma fill_length: "length (fill G f S) = length G"
  by (simp add: fill_def)

lemma fill_row_length: "m < length G \<Longrightarrow> length (fill G f S ! m) = length (G ! m)"
  by (simp add: fill_def)

lemma fill_insert:
  assumes "m < length G" "n < length (G ! m)"
  shows "(fill G f S)[m := (fill G f S ! m)[n := f m n]] = fill G f (insert (m, n) S)"
proof (rule nth_equalityI)
  show "length ((fill G f S)[m := (fill G f S ! m)[n := f m n]]) = length (fill G f (insert (m, n) S))"
    by (simp add: fill_length)
next
  fix i assume "i < length ((fill G f S)[m := (fill G f S ! m)[n := f m n]])"
  then have i: "i < length G" by (simp add: fill_length)
  show "(fill G f S)[m := (fill G f S ! m)[n := f m n]] ! i = fill G f (insert (m, n) S) ! i"
  proof (rule nth_equalityI)
    show "length ((fill G f S)[m := (fill G f S ! m)[n := f m n]] ! i)
        = length (fill G f (insert (m, n) S) ! i)"
      using i assms by (cases "i = m") (simp_all add: fill_length fill_row_length)
  next
    fix j assume "j < length ((fill G f S)[m := (fill G f S ! m)[n := f m n]] ! i)"
    then have j: "j < length (G ! i)"
      using i assms by (cases "i = m") (simp_all add: fill_length fill_row_length)
    have l: "m < length (fill G f S)" "n < length (fill G f S ! m)"
      using assms by (simp_all add: fill_length fill_row_length)
    show "(fill G f S)[m := (fill G f S ! m)[n := f m n]] ! i ! j
        = fill G f (insert (m, n) S) ! i ! j"
      unfolding grid_update_nth[OF l] fill_nth[OF i j] by auto
  qed
qed

lemma is_grid_fill:
  assumes "is_grid a c h w G" "\<And>m n. m < a \<Longrightarrow> n < c \<Longrightarrow> (m, n) \<in> S \<Longrightarrow> is_mat h w (f m n)"
  shows "is_grid a c h w (fill G f S)"
proof (rule is_gridI)
  show "length (fill G f S) = a" using is_grid_length[OF assms(1)] by (simp add: fill_length)
next
  fix i assume "i < a"
  then show "length (fill G f S ! i) = c"
    using is_grid_length[OF assms(1)] is_grid_row[OF assms(1)] by (simp add: fill_row_length)
next
  fix i j assume ij: "i < a" "j < c"
  have "i < length G" "j < length (G ! i)"
    using ij is_grid_length[OF assms(1)] is_grid_row[OF assms(1) ij(1)] by simp_all
  then show "is_mat h w (fill G f S ! i ! j)"
    using assms(2)[OF ij] is_grid_slot[OF assms(1) ij] by (simp add: fill_nth)
qed

lemma for_each_set_inv:
  assumes "I {} ws"
    and "\<And>x S ws. x \<in> set xs \<Longrightarrow> I S ws \<Longrightarrow> \<exists>ws'. body x ws = (None, ws') \<and> I (insert x S) ws'"
  shows "\<exists>ws'. for_each xs body ws = (None, ws') \<and> I (set xs) ws'"
  using assms(2)
proof (induction xs rule: rev_induct)
  case Nil
  then show ?case using assms(1) by simp
next
  case (snoc x xs)
  have "\<exists>ws'. for_each xs body ws = (None, ws') \<and> I (set xs) ws'"
    by (rule snoc.IH) (use snoc.prems in simp)
  then obtain ws1 where ws1: "for_each xs body ws = (None, ws1)" "I (set xs) ws1" by blast
  from snoc.prems[of x "set xs" ws1] ws1(2)
  obtain ws2 where "body x ws1 = (None, ws2)" "I (insert x (set xs)) ws2" by auto
  then show ?case using ws1(1) by (simp add: for_each_append)
qed

lemma for_each_nested:
  "for_each xs (\<lambda>n. for_each ys (\<lambda>m. body n m)) ws =
   for_each (concat (map (\<lambda>n. map (\<lambda>m. (m, n)) ys) xs)) (\<lambda>(m, n). body n m) ws"
proof (induction xs arbitrary: ws)
  case Nil
  show ?case by simp
next
  case (Cons n xs)
  have inner: "for_each (map (\<lambda>m. (m, n)) ys) (\<lambda>(m, n). body n m) ws
      = for_each ys (\<lambda>m. body n m) ws" for ws
    by (induction ys arbitrary: ws) (simp_all split: prod.splits option.splits)
  show ?case
    by (simp add: for_each_append inner Cons.IH split: prod.splits option.splits)
qed

text \<open>
  C6: stage 1 is block-independent. For a pack of \<open>build_alg5_matrices\<close> and
  well-shaped carries and blocks, \<open>alg5_stage1\<close> ends, and so does the same loop
  body run over the block indices in any order \<open>idx\<close> (any list that covers
  them); both leave the same workspace, in which the carries at \<open>(m, n)\<close> are
  \<open>block_carries\<close> of \<open>blocks[m][n]\<close>, the weights and the order alone.
\<close>

theorem alg5_stage1_block_independent:
  fixes ws :: "'a::comm_ring_1 workspace"
  assumes pack: "build_alg5_matrices b r wgt width height = Inr matrices"
    and GP: "is_grid (Suc M) N r b (P ws)" and GE: "is_grid (Suc M) N r b (E ws)"
    and GPt: "is_grid M (Suc N) b r (Pt ws)" and GEt: "is_grid M (Suc N) b r (Et ws)"
    and GB: "is_grid M N b b (blocks ws)"
    and r: "0 < r" "r \<le> b" and w: "length wgt = Suc r"
    and idx: "set idx = {0..<M} \<times> {0..<N}"
  shows "\<exists>ws'. alg5_stage1 M N r wgt matrices ws = (None, ws') \<and>
           for_each idx (\<lambda>(m, n). stage1_block r wgt (np_zeros r b) (np_zeros b r) n m) ws
             = (None, ws') \<and>
           (\<forall>m<M. \<forall>n<N.
              block_carries r wgt (np_zeros r b) (np_zeros b r) (blocks ws ! m ! n)
                = Inr (P ws' ! m ! n, E ws' ! m ! n, Pt ws' ! m ! n, Et ws' ! m ! n))"
proof -
  let ?Zrb = "np_zeros r b :: 'a mat" and ?Zbr = "np_zeros b r :: 'a mat"
  let ?body = "\<lambda>(m, n). stage1_block r wgt ?Zrb ?Zbr n m"
  note pk = build_alg5_matrices_pack[OF pack]
  have b: "0 < b" using r by simp
  have unpack: "take 2 matrices = [?Zrb, ?Zbr]"
    using pk(1,2,4) by (auto simp: list_eq_iff_nth_eq nth_Cons' numeral_eq_Suc less_Suc_eq)
  define cs where "cs m n = projr (block_carries r wgt ?Zrb ?Zbr (blocks ws ! m ! n))" for m n
  define fp where "fp m n = fst (cs m n)" for m n
  define fe where "fe m n = fst (snd (cs m n))" for m n
  define fpt where "fpt m n = fst (snd (snd (cs m n)))" for m n
  define fet where "fet m n = snd (snd (snd (cs m n)))" for m n
  have cs: "block_carries r wgt ?Zrb ?Zbr (blocks ws ! m ! n) = Inr (fp m n, fe m n, fpt m n, fet m n)"
    and shp: "is_mat r b (fp m n)" and she: "is_mat r b (fe m n)"
    and shpt: "is_mat b r (fpt m n)" and shet: "is_mat b r (fet m n)"
    if "m < M" "n < N" for m n
  proof -
    from block_carries_ok[OF is_grid_slot[OF GB that] is_mat_zeros is_mat_zeros r w]
    obtain p e pt et where c: "block_carries r wgt ?Zrb ?Zbr (blocks ws ! m ! n) = Inr (p, e, pt, et)"
      "is_mat r b p" "is_mat r b e" "is_mat b r pt" "is_mat b r et" by blast
    then have "cs m n = (p, e, pt, et)" by (simp add: cs_def)
    then have eq: "fp m n = p" "fe m n = e" "fpt m n = pt" "fet m n = et"
      by (simp_all add: fp_def fe_def fpt_def fet_def)
    show "block_carries r wgt ?Zrb ?Zbr (blocks ws ! m ! n) = Inr (fp m n, fe m n, fpt m n, fet m n)"
      "is_mat r b (fp m n)" "is_mat r b (fe m n)" "is_mat b r (fpt m n)" "is_mat b r (fet m n)"
      unfolding eq using c by simp_all
  qed
  define st where "st S = ws\<lparr>P := fill (P ws) fp S, E := fill (E ws) fe S,
                              Pt := fill (Pt ws) fpt S, Et := fill (Et ws) fet S\<rparr>"
    for S
  have step: "\<exists>ws'. ?body x (st S) = (None, ws') \<and> ws' = st (insert x S)"
    if x: "x \<in> {0..<M} \<times> {0..<N}" and S: "S \<subseteq> {0..<M} \<times> {0..<N}" for x S
  proof -
    obtain m n where mn: "x = (m, n)" "m < M" "n < N" using x by auto
    have in_range: "m' < M \<and> n' < N" if "(m', n') \<in> S" for m' n' using S that by auto
    have gp: "is_grid (Suc M) N r b (P (st S))"
      unfolding st_def using is_grid_fill[OF GP, of S fp] shp in_range by simp
    have ge: "is_grid (Suc M) N r b (E (st S))"
      unfolding st_def using is_grid_fill[OF GE, of S fe] she in_range by simp
    have gpt: "is_grid M (Suc N) b r (Pt (st S))"
      unfolding st_def using is_grid_fill[OF GPt, of S fpt] shpt in_range by simp
    have get: "is_grid M (Suc N) b r (Et (st S))"
      unfolding st_def using is_grid_fill[OF GEt, of S fet] shet in_range by simp
    have gb: "is_grid M N b b (blocks (st S))" unfolding st_def using GB by simp
    have c: "block_carries r wgt ?Zrb ?Zbr (blocks (st S) ! m ! n)
        = Inr (fp m n, fe m n, fpt m n, fet m n)"
      unfolding st_def using cs[OF mn(2,3)] by simp
    have lP: "m < length (P ws)" "n < length (P ws ! m)"
      using is_grid_length[OF GP] is_grid_row[OF GP, of m] mn by simp_all
    have lE: "m < length (E ws)" "n < length (E ws ! m)"
      using is_grid_length[OF GE] is_grid_row[OF GE, of m] mn by simp_all
    have lPt: "m < length (Pt ws)" "n < length (Pt ws ! m)"
      using is_grid_length[OF GPt] is_grid_row[OF GPt, of m] mn by simp_all
    have lEt: "m < length (Et ws)" "n < length (Et ws ! m)"
      using is_grid_length[OF GEt] is_grid_row[OF GEt, of m] mn by simp_all
    have m': "m < Suc M" and n': "n < Suc N" using mn by simp_all
    have "stage1_block r wgt ?Zrb ?Zbr n m (st S) = (None, st (insert (m, n) S))"
      unfolding stage1_block_effect[OF gp ge gpt get gb mn(2) m' mn(3) n' r(1) b c
          shp[OF mn(2,3)] she[OF mn(2,3)] shpt[OF mn(2,3)] shet[OF mn(2,3)]]
      using fill_insert[OF lP, of fp S] fill_insert[OF lE, of fe S]
        fill_insert[OF lPt, of fpt S] fill_insert[OF lEt, of fet S]
      by (simp add: st_def)
    then show ?thesis using mn(1) by simp
  qed
  have any: "for_each xs ?body ws = (None, st (set xs))" if xs: "set xs \<subseteq> {0..<M} \<times> {0..<N}" for xs
  proof -
    define I where "I S ws' \<longleftrightarrow> S \<subseteq> {0..<M} \<times> {0..<N} \<and> ws' = st S" for S ws'
    have "\<exists>ws'. for_each xs ?body ws = (None, ws') \<and> I (set xs) ws'"
    proof (rule for_each_set_inv[where I = I])
      show "I {} ws" by (simp add: I_def st_def fill_empty)
    next
      fix x S ws' assume "x \<in> set xs" "I S ws'"
      then have "x \<in> {0..<M} \<times> {0..<N}" "S \<subseteq> {0..<M} \<times> {0..<N}" "ws' = st S"
        using xs by (auto simp: I_def)
      then show "\<exists>ws''. ?body x ws' = (None, ws'') \<and> I (insert x S) ws''"
        using step[of x S] by (auto simp: I_def)
    qed
    then show ?thesis by (simp add: I_def)
  qed
  let ?src = "concat (map (\<lambda>n. map (\<lambda>m. (m, n)) [0..<M]) [0..<N])"
  have src_set: "set ?src = {0..<M} \<times> {0..<N}" by auto
  have "alg5_stage1 M N r wgt matrices ws = for_each ?src ?body ws"
    unfolding alg5_stage1_def unpack list.case
    by (rule for_each_nested[where body = "\<lambda>n m. stage1_block r wgt ?Zrb ?Zbr n m"])
  then have 1: "alg5_stage1 M N r wgt matrices ws = (None, st ({0..<M} \<times> {0..<N}))"
    using any[of ?src] src_set by simp
  have 2: "for_each idx ?body ws = (None, st ({0..<M} \<times> {0..<N}))"
    using any[of idx] idx by simp
  have 3: "block_carries r wgt ?Zrb ?Zbr (blocks ws ! m ! n)
      = Inr (P (st ({0..<M} \<times> {0..<N})) ! m ! n, E (st ({0..<M} \<times> {0..<N})) ! m ! n,
             Pt (st ({0..<M} \<times> {0..<N})) ! m ! n, Et (st ({0..<M} \<times> {0..<N})) ! m ! n)"
    if mn: "m < M" "n < N" for m n
  proof -
    have lP: "m < length (P ws)" "n < length (P ws ! m)"
      using is_grid_length[OF GP] is_grid_row[OF GP, of m] mn by simp_all
    have lE: "m < length (E ws)" "n < length (E ws ! m)"
      using is_grid_length[OF GE] is_grid_row[OF GE, of m] mn by simp_all
    have lPt: "m < length (Pt ws)" "n < length (Pt ws ! m)"
      using is_grid_length[OF GPt] is_grid_row[OF GPt, of m] mn by simp_all
    have lEt: "m < length (Et ws)" "n < length (Et ws ! m)"
      using is_grid_length[OF GEt] is_grid_row[OF GEt, of m] mn by simp_all
    show ?thesis
      using cs[OF mn] mn
      by (simp add: st_def fill_nth[OF lP] fill_nth[OF lE] fill_nth[OF lPt] fill_nth[OF lEt])
  qed
  show ?thesis using 1 2 3 by blast
qed

theorem alg5_stage1_block_independent_witness:
  "build_alg5_matrices 2 1 [3, 2::int] 2 4 = Inr
     [[[0, 0]], [[0], [0]], [[1]], [[1, 0], [0, 1]], [[- 2], [4]],
      [[3, 0], [- 6, 3]], [[4]], [[4]], [[- 30]], [[4]], [[4]], [[- 30]],
      [[45], [- 18]], [[- 30], [12]], [[- 6], [3]], [[4], [- 2]], [[1]],
      [[- 2]], [[- 2]], [[3]], [[3]], [[4]], [[4]], [[16]], [[16]]] \<and>
   set [(1::nat, 0::nat), (0, 0)] = {0..<2} \<times> {0..<1} \<and>
   (\<exists>ws'. alg5_stage1 2 1 1 [3, 2]
       [[[0, 0]], [[0], [0]], [[1]], [[1, 0], [0, 1]], [[- 2], [4]],
      [[3, 0], [- 6, 3]], [[4]], [[4]], [[- 30]], [[4]], [[4]], [[- 30]],
      [[45], [- 18]], [[- 30], [12]], [[- 6], [3]], [[4], [- 2]], [[1]],
      [[- 2]], [[- 2]], [[3]], [[3]], [[4]], [[4]], [[16]], [[16]]]
       (unpack_carries (build_alg5_carries 2 1 2 1)
          [[[[1, 2], [3, 4]]], [[[5, 6], [7, 8::int]]]]) = (None, ws') \<and>
     for_each [(1, 0), (0, 0)]
       (\<lambda>(m, n). stage1_block 1 [3, 2] (np_zeros 1 2) (np_zeros 2 1) n m)
       (unpack_carries (build_alg5_carries 2 1 2 1)
          [[[[1, 2], [3, 4]]], [[[5, 6], [7, 8::int]]]]) = (None, ws') \<and>
     (\<forall>m<2. \<forall>n<1.
        block_carries 1 [3, 2] (np_zeros 1 2) (np_zeros 2 1)
          (blocks (unpack_carries (build_alg5_carries 2 1 2 1)
             [[[[1, 2], [3, 4]]], [[[5, 6], [7, 8::int]]]]) ! m ! n)
        = Inr (P ws' ! m ! n, E ws' ! m ! n, Pt ws' ! m ! n, Et ws' ! m ! n)))"
proof -
  let ?pack = "[[[0, 0]], [[0], [0]], [[1]], [[1, 0], [0, 1]], [[- 2], [4]],
      [[3, 0], [- 6, 3]], [[4]], [[4]], [[- 30]], [[4]], [[4]], [[- 30]],
      [[45], [- 18]], [[- 30], [12]], [[- 6], [3]], [[4], [- 2]], [[1]],
      [[- 2]], [[- 2]], [[3]], [[3]], [[4]], [[4]], [[16]], [[16::int]]]"
  let ?ws = "unpack_carries (build_alg5_carries 2 1 2 1)
          [[[[1, 2], [3, 4]]], [[[5, 6], [7, 8::int]]]]"
  have h1: "build_alg5_matrices 2 1 [3, 2::int] 2 4 = Inr ?pack" by code_simp
  have h2: "set [(1::nat, 0::nat), (0, 0)] = {0..<2} \<times> {0..<1}" by auto
  have sh: "is_grid (Suc 2) 1 1 2 (P ?ws)" "is_grid (Suc 2) 1 1 2 (E ?ws)"
    "is_grid 2 (Suc 1) 2 1 (Pt ?ws)" "is_grid 2 (Suc 1) 2 1 (Et ?ws)"
    "is_grid 2 1 2 2 (blocks ?ws)"
    by code_simp+
  have ar: "(0::nat) < 1" "(1::nat) \<le> 2" "length [3, 2::int] = Suc 1"
    by simp_all
  show ?thesis
    by (rule conjI[OF h1 conjI[OF h2 alg5_stage1_block_independent[OF h1 sh ar h2]]])
qed

end
